theory Spec2Isabelle
  imports Complex_Main "HOL-Library.Multiset"
begin

section \<open>Values: floating-point numbers over ideal reals\<close>

text \<open>
  The arithmetic of \<open>score_adjustments.py\<close> is numpy/pandas float64 arithmetic. It is
  modelled over the real numbers extended with the three special values of the format:
  rounding, overflow of finite values and the sign of zero are idealised away, while
  division by zero, \<open>inf - inf\<close>, \<open>0 * inf\<close> and the propagation of NaN are kept, since
  the code relies on them (no guard surrounds any division of the module).
\<close>

datatype fval = Fin real | PInf | NInf | NaN

datatype 'k py_error = ZeroDivisionError | KeyError "'k list"

text \<open>The sign of a value as a real; NaN has none and is handled before this is used.\<close>

fun sg :: "fval \<Rightarrow> real" where
  "sg (Fin a) = sgn a"
| "sg PInf = 1"
| "sg NInf = -1"
| "sg NaN = 0"

definition inf_of_sign :: "real \<Rightarrow> fval" where
  "inf_of_sign s = (if s > 0 then PInf else if s < 0 then NInf else NaN)"

fun fneg :: "fval \<Rightarrow> fval" where
  "fneg (Fin a) = Fin (- a)"
| "fneg PInf = NInf"
| "fneg NInf = PInf"
| "fneg NaN = NaN"

fun fadd :: "fval \<Rightarrow> fval \<Rightarrow> fval" where
  "fadd (Fin a) (Fin b) = Fin (a + b)"
| "fadd NaN y = NaN"
| "fadd x NaN = NaN"
| "fadd PInf NInf = NaN"
| "fadd NInf PInf = NaN"
| "fadd PInf y = PInf"
| "fadd NInf y = NInf"
| "fadd (Fin a) y = y"

definition fsub :: "fval \<Rightarrow> fval \<Rightarrow> fval" where
  "fsub x y = fadd x (fneg y)"

fun fmul :: "fval \<Rightarrow> fval \<Rightarrow> fval" where
  "fmul (Fin a) (Fin b) = Fin (a * b)"
| "fmul NaN y = NaN"
| "fmul x NaN = NaN"
| "fmul x y = inf_of_sign (sg x * sg y)"

text \<open>
  Division of float64 arrays never raises: a zero divisor gives NaN for \<open>0/0\<close> and an
  infinity otherwise.
\<close>

fun fdiv :: "fval \<Rightarrow> fval \<Rightarrow> fval" where
  "fdiv (Fin a) (Fin b) = (if b = 0 then inf_of_sign (sgn a) else Fin (a / b))"
| "fdiv NaN y = NaN"
| "fdiv x NaN = NaN"
| "fdiv (Fin a) y = Fin 0"
| "fdiv x (Fin b) = inf_of_sign (sg x * (if b < 0 then -1 else 1))"
| "fdiv x y = NaN"

fun fabs :: "fval \<Rightarrow> fval" where
  "fabs (Fin a) = Fin \<bar>a\<bar>"
| "fabs PInf = PInf"
| "fabs NInf = PInf"
| "fabs NaN = NaN"

text \<open>\<open>np.sign\<close>: \<open>-1\<close>, \<open>0\<close> or \<open>1\<close>, and NaN for NaN.\<close>

fun fsign :: "fval \<Rightarrow> fval" where
  "fsign NaN = NaN"
| "fsign x = Fin (sg x)"

definition is_int :: "real \<Rightarrow> bool" where
  "is_int y = (of_int \<lfloor>y\<rfloor> = y)"

definition is_odd_int :: "real \<Rightarrow> bool" where
  "is_odd_int y = (is_int y \<and> odd \<lfloor>y\<rfloor>)"

text \<open>
  \<open>x ** y\<close> with a finite exponent \<open>y\<close>, as \<open>np.power\<close> computes it on floats:
  anything to the power \<open>0\<close> is \<open>1\<close> (NaN included), \<open>0\<close> to a negative power is \<open>inf\<close>,
  a negative base has a real power only for an integer exponent.
\<close>

fun fpow :: "fval \<Rightarrow> real \<Rightarrow> fval" where
  "fpow x y =
     (if y = 0 then Fin 1
      else case x of
        NaN \<Rightarrow> NaN
      | Fin a \<Rightarrow>
          (if a > 0 then Fin (a powr y)
           else if a = 0 then (if y > 0 then Fin 0 else PInf)
           else if is_int y then Fin ((if is_odd_int y then -1 else 1) * (\<bar>a\<bar> powr y))
           else NaN)
      | PInf \<Rightarrow> (if y > 0 then PInf else Fin 0)
      | NInf \<Rightarrow> (if y > 0 then (if is_odd_int y then NInf else PInf) else Fin 0))"

section \<open>Series and frames\<close>

text \<open>
  A pandas Series is a list of labelled values, in index order. A DataFrame of raw
  scores is its row labels (the projects), the number of its columns (the judges) and
  one row of cells per project; the cells are the finite scores the judges gave. The
  frame is a numeric one: its columns have dtype \<open>float64\<close>, also when it has no row
  (\<open>pd.DataFrame({'J1': [], 'J2': []}, dtype=float)\<close>). A frame of Python objects, which
  \<open>pd.DataFrame(columns=['J1', 'J2'])\<close> builds when it is given no row, has another
  arithmetic and is outside the model.
\<close>

type_synonym 'k series = "('k \<times> fval) list"

record 'k frame =
  index :: "'k list"
  ncols :: nat
  cells :: "real list list"

definition wf_frame :: "'k frame \<Rightarrow> bool" where
  "wf_frame t = (length (cells t) = length (index t) \<and> list_all (\<lambda>r. length r = ncols t) (cells t))"

definition column :: "'k frame \<Rightarrow> nat \<Rightarrow> real list" where
  "column t j = map (\<lambda>r. r ! j) (cells t)"

subsection \<open>Reductions (pandas skips NaN)\<close>

text \<open>\<open>Series.sum()\<close> and \<open>np.sum(frame, axis=1)\<close>, which dispatches to \<open>DataFrame.sum\<close>:
  NaN entries are skipped and the empty sum is \<open>0.0\<close>.\<close>

fun nansum :: "fval list \<Rightarrow> fval" where
  "nansum [] = Fin 0"
| "nansum (x # xs) = (if x = NaN then nansum xs else fadd x (nansum xs))"

text \<open>The order of the values that are not NaN.\<close>

fun fle :: "fval \<Rightarrow> fval \<Rightarrow> bool" where
  "fle (Fin a) (Fin b) = (a \<le> b)"
| "fle NInf y = True"
| "fle x PInf = True"
| "fle x y = False"

definition fmin2 :: "fval \<Rightarrow> fval \<Rightarrow> fval" where
  "fmin2 x y = (if fle x y then x else y)"

definition fmax2 :: "fval \<Rightarrow> fval \<Rightarrow> fval" where
  "fmax2 x y = (if fle x y then y else x)"

text \<open>\<open>Series.min()\<close> and \<open>Series.max()\<close>: over the entries that are not NaN, and NaN when
  there is none.\<close>

definition series_min :: "fval list \<Rightarrow> fval" where
  "series_min xs = (case filter (\<lambda>x. x \<noteq> NaN) xs of [] \<Rightarrow> NaN | y # ys \<Rightarrow> foldl fmin2 y ys)"

definition series_max :: "fval list \<Rightarrow> fval" where
  "series_max xs = (case filter (\<lambda>x. x \<noteq> NaN) xs of [] \<Rightarrow> NaN | y # ys \<Rightarrow> foldl fmax2 y ys)"

text \<open>\<open>DataFrame.mean(axis=0)\<close>, \<open>.var(axis=0)\<close> and \<open>.std(axis=0)\<close> on one column of finite
  cells. The variance and the standard deviation are the sample ones (\<open>ddof=1\<close>, the pandas
  default), NaN on fewer than two rows.\<close>

definition col_mean :: "real list \<Rightarrow> fval" where
  "col_mean xs = (if xs = [] then NaN else Fin (sum_list xs / real (length xs)))"

definition sq_dev :: "real list \<Rightarrow> real" where
  "sq_dev xs = (let m = sum_list xs / real (length xs) in sum_list (map (\<lambda>x. (x - m)\<^sup>2) xs))"

definition col_var :: "real list \<Rightarrow> fval" where
  "col_var xs = (if length xs \<le> 1 then NaN else Fin (sq_dev xs / real (length xs - 1)))"

definition col_std :: "real list \<Rightarrow> fval" where
  "col_std xs = (if length xs \<le> 1 then NaN else Fin (sqrt (sq_dev xs / real (length xs - 1))))"

definition mean_axis0 :: "'k frame \<Rightarrow> fval list" where
  "mean_axis0 t = map (\<lambda>j. col_mean (column t j)) [0..<ncols t]"

definition std_axis0 :: "'k frame \<Rightarrow> fval list" where
  "std_axis0 t = map (\<lambda>j. col_std (column t j)) [0..<ncols t]"

definition var_axis0 :: "'k frame \<Rightarrow> fval list" where
  "var_axis0 t = map (\<lambda>j. col_var (column t j)) [0..<ncols t]"

subsection \<open>Sorting by value\<close>

text \<open>\<open>sort_values(ascending=False)\<close>: descending by value, NaN entries last.\<close>

definition desc :: "fval \<Rightarrow> fval \<Rightarrow> bool" where
  "desc x y = (y = NaN \<or> (x \<noteq> NaN \<and> fle y x))"

fun insert_desc :: "'k \<times> fval \<Rightarrow> 'k series \<Rightarrow> 'k series" where
  "insert_desc e [] = [e]"
| "insert_desc e (x # xs) = (if desc (snd e) (snd x) then e # x # xs else x # insert_desc e xs)"

fun sort_values :: "'k series \<Rightarrow> 'k series" where
  "sort_values [] = []"
| "sort_values (x # xs) = insert_desc x (sort_values xs)"

section \<open>The module \<open>score_adjustments.py\<close>\<close>

text \<open>The helper \<open>_normalize\<close> (a constant's name cannot begin with an underscore).\<close>

definition normalize_arr :: "fval list \<Rightarrow> fval list" where
  "normalize_arr arr =
     (let a = series_min arr; b = series_max arr
      in map (\<lambda>x. fdiv (fsub x a) (fsub b a)) arr)"

text \<open>The cell of \<open>kappa_adjusted\<close>'s frame expression for one score \<open>x\<close> of a judge with
  mean \<open>mu\<close> and standard deviation \<open>sd\<close>; \<open>e\<close> is the exponent \<open>1 / (1 + kappa)\<close>.\<close>

definition kappa_cell :: "real \<Rightarrow> real \<Rightarrow> fval \<Rightarrow> fval \<Rightarrow> real \<Rightarrow> fval" where
  "kappa_cell kappa e mu sd x =
     fmul (fsign (fsub (Fin x) mu))
          (fpow (fmul (fabs (fsub (Fin x) mu)) (fpow sd kappa)) e)"

text \<open>The variable \<open>adjusted_scores\<close> of \<open>kappa_adjusted\<close>, one value per row.\<close>

definition kappa_scores :: "'k frame \<Rightarrow> real \<Rightarrow> fval list" where
  "kappa_scores scores kappa =
     (let avg_scores = mean_axis0 scores;
          std_scores = std_axis0 scores
      in map (\<lambda>row. nansum (map (\<lambda>(x, mu, sd). kappa_cell kappa (1 / (1 + kappa)) mu sd x)
                               (zip row (zip avg_scores std_scores))))
             (cells scores))"

text \<open>\<open>1 / (1 + kappa)\<close> is a division of Python numbers: it raises \<open>ZeroDivisionError\<close> at
  \<open>kappa = -1\<close>, and the call ends there.\<close>

definition kappa_adjusted :: "'k frame \<Rightarrow> real \<Rightarrow> bool \<Rightarrow> 'k py_error + 'k series" where
  "kappa_adjusted scores kappa do_normalize =
     (if 1 + kappa = 0 then Inl ZeroDivisionError
      else
        let adjusted_scores = kappa_scores scores kappa;
            normalized_scores = (if do_normalize then normalize_arr adjusted_scores else adjusted_scores)
        in Inr (sort_values (zip (index scores) normalized_scores)))"

text \<open>The variable \<open>weights\<close> of \<open>proportional_variance\<close>.\<close>

definition pv_weights :: "'k frame \<Rightarrow> fval list" where
  "pv_weights scores =
     (let std_scores = var_axis0 scores
      in map (\<lambda>v. fdiv v (nansum std_scores)) std_scores)"

text \<open>The variable \<open>adjusted_scores\<close> of \<open>proportional_variance\<close>.\<close>

definition pv_scores :: "'k frame \<Rightarrow> fval list" where
  "pv_scores scores =
     (let weights = pv_weights scores
      in map (\<lambda>row. nansum (map (\<lambda>(w, x). fmul w (Fin x)) (zip weights row))) (cells scores))"

definition proportional_variance :: "'k frame \<Rightarrow> bool \<Rightarrow> 'k py_error + 'k series" where
  "proportional_variance scores do_normalize =
     (let adjusted_scores = pv_scores scores;
          normalized_scores = (if do_normalize then normalize_arr adjusted_scores else adjusted_scores)
      in Inr (sort_values (zip (index scores) normalized_scores)))"

subsection \<open>The attendance blend\<close>

text \<open>
  Labels are Python objects, so scores, attendance and the dictionary share one label
  type. Both Series are taken with unique labels, as the data model has them; label
  alignment of the final sum is then position by position.
\<close>

text \<open>\<open>[mapping[x] for x in attendance.index]\<close>: the first label that is no key of the
  dictionary raises \<open>KeyError\<close>.\<close>

fun relabel :: "('k \<rightharpoonup> 'k) \<Rightarrow> 'k series \<Rightarrow> 'k py_error + 'k series" where
  "relabel m [] = Inr []"
| "relabel m ((x, v) # rest) =
     (case m x of
        None \<Rightarrow> Inl (KeyError [x])
      | Some y \<Rightarrow> (case relabel m rest of Inl e \<Rightarrow> Inl e | Inr r \<Rightarrow> Inr ((y, v) # r)))"

text \<open>\<open>attendance.loc[labels]\<close>: \<open>KeyError\<close>, naming the labels it does not find, unless
  every label is in the index.\<close>

definition loc :: "'k series \<Rightarrow> 'k list \<Rightarrow> 'k py_error + fval list" where
  "loc s labels =
     (let missing = filter (\<lambda>k. k \<notin> fst ` set s) labels
      in if missing \<noteq> [] then Inl (KeyError (remdups missing))
         else Inr (map (\<lambda>k. the (map_of s k)) labels))"

definition showcase_prescreening_score ::
  "'k series \<Rightarrow> 'k series \<Rightarrow> real \<Rightarrow> ('k \<rightharpoonup> 'k) option \<Rightarrow> 'k py_error + 'k series" where
  "showcase_prescreening_score scores attendance attendance_ratio mapping =
     (case (case mapping of None \<Rightarrow> Inr attendance | Some m \<Rightarrow> relabel m attendance) of
        Inl e \<Rightarrow> Inl e
      | Inr attendance' \<Rightarrow>
          (case loc attendance' (map fst scores) of
             Inl e \<Rightarrow> Inl e
           | Inr att \<Rightarrow>
               Inr (map (\<lambda>((k, s), a). (k, fadd (fmul s (Fin (1 - attendance_ratio)))
                                                 (fmul a (Fin attendance_ratio))))
                        (zip scores att))))"


section \<open>Notions the properties are stated with\<close>

text \<open>Labels of the two kinds the preprocessing produces: project names and project numbers.\<close>

datatype label = Name string | Num int

fun is_fin :: "fval \<Rightarrow> bool" where
  "is_fin (Fin a) = True"
| "is_fin x = False"

definition real_valued :: "'k series \<Rightarrow> bool" where
  "real_valued s = list_all (\<lambda>e. is_fin (snd e)) s"

text \<open>The attendance Series as the blend reads it: relabelled through the dictionary when
  one is given.\<close>

definition relabelled :: "'k series \<Rightarrow> ('k \<rightharpoonup> 'k) option \<Rightarrow> 'k series" where
  "relabelled attendance mapping =
     (case mapping of None \<Rightarrow> attendance
      | Some m \<Rightarrow> map (\<lambda>(a, v). (the (m a), v)) attendance)"

text \<open>The key precondition of the blend: the dictionary, when given, has every attendance
  label as a key, and every label of \<open>scores\<close> is a label of the relabelled attendance.\<close>

definition keys_ok :: "'k series \<Rightarrow> 'k series \<Rightarrow> ('k \<rightharpoonup> 'k) option \<Rightarrow> bool" where
  "keys_ok scores attendance mapping =
     ((case mapping of None \<Rightarrow> True | Some m \<Rightarrow> list_all (\<lambda>e. m (fst e) \<noteq> None) attendance)
      \<and> list_all (\<lambda>e. fst e \<in> fst ` set (relabelled attendance mapping)) scores)"

text \<open>The order \<open>sort_values\<close> puts the entries of a Series in.\<close>

abbreviation by_value :: "'k \<times> fval \<Rightarrow> 'k \<times> fval \<Rightarrow> bool" where
  "by_value e f \<equiv> desc (snd e) (snd f)"

text \<open>The table of the concrete scenario: projects \<open>P1\<close>, \<open>P2\<close> and two judges.\<close>

definition example_scores :: "string frame" where
  "example_scores = \<lparr>index = [''P1'', ''P2''], ncols = 2, cells = [[8, 6], [4, 9]]\<rparr>"

section \<open>The formulas of the specification\<close>

text \<open>
  The quantities the specification names, written as it writes them, over the real
  numbers: \<open>score t p j\<close> is the score of the \<open>p\<close>-th project by the \<open>j\<close>-th judge, the
  mean and the sample variance and standard deviation of a judge run over all projects.
\<close>

definition score :: "'k frame \<Rightarrow> nat \<Rightarrow> nat \<Rightarrow> real" where
  "score t p j = cells t ! p ! j"

definition spec_mean :: "'k frame \<Rightarrow> nat \<Rightarrow> real" where
  "spec_mean t j = (\<Sum>p<length (index t). score t p j) / real (length (index t))"

definition spec_var :: "'k frame \<Rightarrow> nat \<Rightarrow> real" where
  "spec_var t j =
     (\<Sum>p<length (index t). (score t p j - spec_mean t j)\<^sup>2) / real (length (index t) - 1)"

definition spec_std :: "'k frame \<Rightarrow> nat \<Rightarrow> real" where
  "spec_std t j = sqrt (spec_var t j)"

text \<open>The signed contribution of judge \<open>j\<close> to project \<open>p\<close>: \<open>sign(d) * (|d| * sigma^kappa)^(1/(1+kappa))\<close>.\<close>

definition spec_contribution :: "'k frame \<Rightarrow> real \<Rightarrow> nat \<Rightarrow> nat \<Rightarrow> real" where
  "spec_contribution t kappa p j =
     (let d = score t p j - spec_mean t j
      in sgn d * (\<bar>d\<bar> * spec_std t j powr kappa) powr (1 / (1 + kappa)))"

definition spec_kappa :: "'k frame \<Rightarrow> real \<Rightarrow> nat \<Rightarrow> real" where
  "spec_kappa t kappa p = (\<Sum>j<ncols t. spec_contribution t kappa p j)"

definition spec_weight :: "'k frame \<Rightarrow> nat \<Rightarrow> real" where
  "spec_weight t j = spec_var t j / (\<Sum>k<ncols t. spec_var t k)"

definition spec_pv :: "'k frame \<Rightarrow> nat \<Rightarrow> real" where
  "spec_pv t p = (\<Sum>j<ncols t. spec_weight t j * score t p j)"

text \<open>Three projects scored \<open>0\<close>, \<open>1\<close>, \<open>2\<close> by one judge (mean \<open>1\<close>, standard deviation \<open>1\<close>).\<close>

definition example_three :: "string frame" where
  "example_three = \<lparr>index = [''P1'', ''P2'', ''P3''], ncols = 1, cells = [[0], [1], [2]]\<rparr>"

text \<open>Two projects and two judges, the second of whom gives every project the same score.\<close>

definition example_flat :: "string frame" where
  "example_flat = \<lparr>index = [''P1'', ''P2''], ncols = 2, cells = [[8, 5], [4, 5]]\<rparr>"

text \<open>Two projects whose adjusted scores are equal under both formulas.\<close>

definition example_equal :: "string frame" where
  "example_equal = \<lparr>index = [''P1'', ''P2''], ncols = 2, cells = [[8, 6], [6, 8]]\<rparr>"

text \<open>A \<open>float64\<close> table with two judges and no project
  (\<open>pd.DataFrame({'J1': [], 'J2': []}, dtype=float)\<close>), and a table with two projects and no
  judge (\<open>pd.DataFrame(index=['P1', 'P2'])\<close>).\<close>

definition no_projects :: "string frame" where
  "no_projects = \<lparr>index = [], ncols = 2, cells = []\<rparr>"

definition no_judges :: "string frame" where
  "no_judges = \<lparr>index = [''P1'', ''P2''], ncols = 0, cells = [[], []]\<rparr>"

section \<open>Properties of the attendance blend\<close>

lemma relabel_ok:
  "list_all (\<lambda>e. m (fst e) \<noteq> None) s \<Longrightarrow> relabel m s = Inr (map (\<lambda>(a, v). (the (m a), v)) s)"
  by (induction s) auto

lemma relabel_fail:
  "\<not> list_all (\<lambda>e. m (fst e) \<noteq> None) s \<Longrightarrow>
     \<exists>x. relabel m s = Inl (KeyError [x]) \<and> x \<in> fst ` set s \<and> m x = None"
proof (induction s)
  case Nil
  then show ?case by simp
next
  case (Cons e s)
  obtain a v where e: "e = (a, v)" by (cases e)
  show ?case
  proof (cases "m a")
    case None
    then show ?thesis by (simp add: e)
  next
    case (Some y)
    with Cons.prems have "\<not> list_all (\<lambda>e. m (fst e) \<noteq> None) s" by (simp add: e)
    from Cons.IH[OF this] obtain x where
      "relabel m s = Inl (KeyError [x])" "x \<in> fst ` set s" "m x = None" by blast
    then show ?thesis by (simp add: e Some)
  qed
qed

lemma loc_ok:
  "list_all (\<lambda>k. k \<in> fst ` set s) labels \<Longrightarrow> loc s labels = Inr (map (\<lambda>k. the (map_of s k)) labels)"
  by (auto simp: loc_def list_all_iff filter_empty_conv)

lemma loc_fail:
  "\<not> list_all (\<lambda>k. k \<in> fst ` set s) labels \<Longrightarrow>
     \<exists>ks. loc s labels = Inl (KeyError ks) \<and> ks \<noteq> [] \<and> set ks = {k \<in> set labels. k \<notin> fst ` set s}"
  by (auto simp: loc_def list_all_iff filter_empty_conv Let_def)

lemma relabel_case:
  assumes "case mapping of None \<Rightarrow> True | Some m \<Rightarrow> list_all (\<lambda>e. m (fst e) \<noteq> None) attendance"
  shows "(case mapping of None \<Rightarrow> Inr attendance | Some m \<Rightarrow> relabel m attendance)
           = Inr (relabelled attendance mapping)"
  using assms by (auto simp: relabelled_def relabel_ok split: option.splits)

lemma blend_ok:
  assumes "keys_ok scores attendance mapping"
  shows "showcase_prescreening_score scores attendance r mapping =
     Inr (map (\<lambda>(k, s). (k, fadd (fmul s (Fin (1 - r)))
            (fmul (the (map_of (relabelled attendance mapping) k)) (Fin r)))) scores)"
proof -
  have a: "(case mapping of None \<Rightarrow> Inr attendance | Some m \<Rightarrow> relabel m attendance)
           = Inr (relabelled attendance mapping)"
    using assms by (intro relabel_case) (simp add: keys_ok_def)
  have b: "loc (relabelled attendance mapping) (map fst scores)
           = Inr (map (\<lambda>k. the (map_of (relabelled attendance mapping) k)) (map fst scores))"
    using assms by (intro loc_ok) (simp add: keys_ok_def list_all_iff)
  have c: "map (\<lambda>((k, s), a). (k, f s a)) (zip xs (map (g \<circ> fst) xs))
           = map (\<lambda>(k, s). (k, f s (g k))) xs" for f g and xs :: "('k \<times> fval) list"
    by (induction xs) auto
  show ?thesis
    by (simp add: showcase_prescreening_score_def a b c)
qed

lemma fin_ops:
  "is_fin s \<Longrightarrow> fmul s (Fin 1) = s"
  "is_fin s \<Longrightarrow> fmul s (Fin 0) = Fin 0"
  "is_fin s \<Longrightarrow> fadd s (Fin 0) = s"
  "is_fin s \<Longrightarrow> fadd (Fin 0) s = s"
  by (cases s; simp)+

lemma relabelled_real_valued:
  "real_valued attendance \<Longrightarrow> real_valued (relabelled attendance mapping)"
  by (auto simp: real_valued_def relabelled_def list_all_iff split: option.splits)

lemma lookup_fin:
  assumes "real_valued s" "k \<in> fst ` set s"
  shows "is_fin (the (map_of s k))"
proof -
  from assms(2) obtain v where "map_of s k = Some v"
    by (metis domIff dom_map_of_conv_image_fst not_Some_eq)
  moreover from this have "(k, v) \<in> set s" by (rule map_of_SomeD)
  ultimately show ?thesis using assms(1) by (auto simp: real_valued_def list_all_iff)
qed

text \<open>The attendance scenario of the specification, which gives no dictionary.\<close>

lemma blend_scenario:
  "showcase_prescreening_score [(''P1'', Fin (4 / 5)), (''P2'', Fin (3 / 10))]
     [(''P1'', Fin (1 / 2)), (''P2'', Fin 1)] (1 / 5) None
   = Inr [(''P1'', Fin (37 / 50)), (''P2'', Fin (11 / 25))]"
  by (simp add: showcase_prescreening_score_def loc_def)

text \<open>The dictionary works in the direction from attendance labels to score labels.\<close>

lemma blend_inverse_mapping:
  "showcase_prescreening_score [(Name ''P1'', Fin (4 / 5))] [(Num 1, Fin (1 / 2))] (1 / 5)
     (Some [Num 1 \<mapsto> Name ''P1'']) = Inr [(Name ''P1'', Fin (37 / 50))]"
  by (simp add: showcase_prescreening_score_def loc_def)

text \<open>
  C3. The claim: the blend returns \<open>scores[p]*(1-r) + attendance[translate(p)]*r\<close>, where
  \<open>translate\<close> is the supplied dictionary from score labels to attendance labels. The code
  looks the dictionary up at the attendance labels (\<open>mapping[x] for x in attendance.index\<close>),
  so a dictionary keyed by score labels, as the docstring and the type hint
  \<open>dict[str, int]\<close> describe it, raises \<open>KeyError\<close> at the first attendance label: with
  scores \<open>{P1: 0.8}\<close>, attendance \<open>{1: 0.5}\<close>, ratio \<open>0.2\<close> and mapping \<open>{P1: 1}\<close> the
  call raises \<open>KeyError(1)\<close> where the claim promises \<open>{P1: 0.74}\<close>.
\<close>

theorem blend_mapping_direction:
  "showcase_prescreening_score [(Name ''P1'', Fin (4/5))] [(Num 1, Fin (1/2))] (1/5)
         (Some [Name ''P1'' \<mapsto> Num 1]) = Inl (KeyError [Num 1])"
  by (simp add: showcase_prescreening_score_def)

text \<open>
  C4. Whenever the key precondition fails (a label of \<open>scores\<close> is no label of the
  attendance Series as the blend reads it, or an attendance label is no key of the
  dictionary), the blend raises \<open>KeyError\<close>; the error names at least one key and every key
  it names is missing. No Series is returned, so no partial, defaulted or NaN-filled one.
\<close>

theorem blend_missing_key:
  assumes "\<not> keys_ok scores attendance mapping"
  shows "\<exists>ks. showcase_prescreening_score scores attendance r mapping = Inl (KeyError ks) \<and> ks \<noteq> []
     \<and> (\<forall>k\<in>set ks.
          (\<exists>m. mapping = Some m \<and> k \<in> fst ` set attendance \<and> m k = None)
        \<or> (k \<in> fst ` set scores \<and> k \<notin> fst ` set (relabelled attendance mapping)))"
proof (cases "case mapping of None \<Rightarrow> True | Some m \<Rightarrow> list_all (\<lambda>e. m (fst e) \<noteq> None) attendance")
  case False
  then obtain m where m: "mapping = Some m" "\<not> list_all (\<lambda>e. m (fst e) \<noteq> None) attendance"
    by (auto split: option.splits)
  from relabel_fail[OF m(2)] obtain x where
    "relabel m attendance = Inl (KeyError [x])" "x \<in> fst ` set attendance" "m x = None" by blast
  then show ?thesis by (simp add: showcase_prescreening_score_def m(1))
next
  case True
  note a = relabel_case[OF True]
  from True assms have "\<not> list_all (\<lambda>k. k \<in> fst ` set (relabelled attendance mapping)) (map fst scores)"
    by (simp add: keys_ok_def list_all_iff)
  from loc_fail[OF this] obtain ks where
    "loc (relabelled attendance mapping) (map fst scores) = Inl (KeyError ks)" "ks \<noteq> []"
    "set ks = {k \<in> set (map fst scores). k \<notin> fst ` set (relabelled attendance mapping)}" by blast
  then show ?thesis by (auto simp: showcase_prescreening_score_def a)
qed

theorem blend_missing_key_witness:
  "\<not> keys_ok [(Name ''P1'', Fin (4/5)), (Name ''P2'', Fin (3/10))] [(Name ''P1'', Fin (1/2))] None
   \<and> showcase_prescreening_score [(Name ''P1'', Fin (4/5)), (Name ''P2'', Fin (3/10))]
        [(Name ''P1'', Fin (1/2))] (1/5) None = Inl (KeyError [Name ''P2''])"
proof -
  have h: "\<not> keys_ok [(Name ''P1'', Fin (4/5)), (Name ''P2'', Fin (3/10))] [(Name ''P1'', Fin (1/2))] None"
    by (simp add: keys_ok_def relabelled_def)
  have "showcase_prescreening_score [(Name ''P1'', Fin (4/5)), (Name ''P2'', Fin (3/10))]
        [(Name ''P1'', Fin (1/2))] (1/5) None = Inl (KeyError [Name ''P2''])"
    using blend_missing_key[OF h, of "1/5"] by (simp add: showcase_prescreening_score_def loc_def)
  with h show ?thesis by simp
qed

text \<open>
  C7. For real-valued Series with unique labels that satisfy the key precondition, the
  blend with ratio \<open>0\<close> returns \<open>scores\<close> itself, and with ratio \<open>1\<close> it returns, at each
  label of \<open>scores\<close>, the attendance value found at that label, whatever the score is.
\<close>

theorem blend_ratio_extremes:
  assumes "keys_ok scores attendance mapping"
    and "real_valued scores" and "real_valued attendance"
    and "distinct (map fst scores)" and "distinct (map fst (relabelled attendance mapping))"
  shows "showcase_prescreening_score scores attendance 0 mapping = Inr scores
       \<and> showcase_prescreening_score scores attendance 1 mapping =
           Inr (map (\<lambda>(k, s). (k, the (map_of (relabelled attendance mapping) k))) scores)"
proof -
  have fin: "is_fin s \<and> is_fin (the (map_of (relabelled attendance mapping) k))"
    if "(k, s) \<in> set scores" for k s
  proof -
    from assms(1) have "\<forall>e\<in>set scores. fst e \<in> fst ` set (relabelled attendance mapping)"
      by (simp add: keys_ok_def list_all_iff)
    with that have "fst (k, s) \<in> fst ` set (relabelled attendance mapping)" by blast
    then have "k \<in> fst ` set (relabelled attendance mapping)" by simp
    then have "is_fin (the (map_of (relabelled attendance mapping) k))"
      using relabelled_real_valued[OF assms(3)] by (intro lookup_fin)
    moreover from that assms(2) have "is_fin s" by (auto simp: real_valued_def list_all_iff)
    ultimately show ?thesis by simp
  qed
  have "map (\<lambda>(k, s). (k, fadd (fmul s (Fin (1 - 0)))
            (fmul (the (map_of (relabelled attendance mapping) k)) (Fin 0)))) scores = scores"
    by (rule map_idI) (auto simp: fin_ops dest: fin)
  moreover have "map (\<lambda>(k, s). (k, fadd (fmul s (Fin (1 - 1)))
            (fmul (the (map_of (relabelled attendance mapping) k)) (Fin 1)))) scores
       = map (\<lambda>(k, s). (k, the (map_of (relabelled attendance mapping) k))) scores"
    by (rule map_cong) (auto simp: fin_ops dest: fin)
  ultimately show ?thesis using blend_ok[OF assms(1)] by simp
qed

theorem blend_ratio_extremes_witness:
  "showcase_prescreening_score [(Name ''P1'', Fin (4/5)), (Name ''P2'', Fin (3/10))]
        [(Num 2, Fin 1), (Num 1, Fin (1/2))] 0 (Some [Num 1 \<mapsto> Name ''P1'', Num 2 \<mapsto> Name ''P2''])
     = Inr [(Name ''P1'', Fin (4/5)), (Name ''P2'', Fin (3/10))]
   \<and> showcase_prescreening_score [(Name ''P1'', Fin (4/5)), (Name ''P2'', Fin (3/10))]
        [(Num 2, Fin 1), (Num 1, Fin (1/2))] 1 (Some [Num 1 \<mapsto> Name ''P1'', Num 2 \<mapsto> Name ''P2''])
     = Inr [(Name ''P1'', Fin (1/2)), (Name ''P2'', Fin 1)]"
  using blend_ratio_extremes[of "[(Name ''P1'', Fin (4/5)), (Name ''P2'', Fin (3/10))]"
        "[(Num 2, Fin 1), (Num 1, Fin (1/2))]" "Some [Num 1 \<mapsto> Name ''P1'', Num 2 \<mapsto> Name ''P2'']"]
  by (simp add: keys_ok_def relabelled_def real_valued_def)

section \<open>Sorting a Series\<close>

lemma mset_insert_desc: "mset (insert_desc e xs) = add_mset e (mset xs)"
  by (induction xs) auto

lemma mset_sort_values: "mset (sort_values xs) = mset xs"
  by (induction xs) (auto simp: mset_insert_desc)

lemma set_sort_values: "set (sort_values xs) = set xs"
  using mset_sort_values[of xs] by (metis set_mset_mset)

lemma length_sort_values: "length (sort_values xs) = length xs"
  using mset_sort_values[of xs] by (metis size_mset)

lemma desc_total: "\<not> desc x y \<Longrightarrow> desc y x"
  by (cases x; cases y; simp add: desc_def)

lemma desc_trans: "desc x y \<Longrightarrow> desc y z \<Longrightarrow> desc x z"
  by (cases x; cases y; cases z; simp add: desc_def)

lemma desc_fin: "desc (Fin a) (Fin b) = (b \<le> a)"
  by (simp add: desc_def)

lemma set_insert_desc: "set (insert_desc e xs) = insert e (set xs)"
  using mset_insert_desc[of e xs] by (metis set_mset_add_mset_insert set_mset_mset)

lemma sorted_insert_desc:
  "sorted_wrt by_value xs \<Longrightarrow> sorted_wrt by_value (insert_desc e xs)"
proof (induction xs)
  case Nil
  then show ?case by simp
next
  case (Cons x xs)
  show ?case
  proof (cases "desc (snd e) (snd x)")
    case True
    with Cons.prems show ?thesis by (auto intro: desc_trans)
  next
    case False
    then have "desc (snd x) (snd e)" by (rule desc_total)
    with False Cons show ?thesis by (auto simp: set_insert_desc)
  qed
qed

lemma sorted_sort_values: "sorted_wrt by_value (sort_values xs)"
  by (induction xs) (auto simp: sorted_insert_desc)

lemma descending_sort_values: "sorted_wrt desc (map snd (sort_values xs))"
  using sorted_sort_values[of xs] by (simp add: sorted_wrt_map)

lemma sort_values_const:
  "\<forall>e\<in>set xs. snd e = c \<Longrightarrow> sort_values xs = xs"
proof (induction xs)
  case Nil
  then show ?case by simp
next
  case (Cons x xs)
  then have "sort_values xs = xs" by simp
  moreover have "desc c c" by (cases c) (simp_all add: desc_def)
  ultimately show ?case using Cons.prems by (cases xs) auto
qed

lemma length_normalize_arr: "length (normalize_arr xs) = length xs"
  by (simp add: normalize_arr_def Let_def)

lemma length_kappa_scores: "length (kappa_scores t kappa) = length (cells t)"
  by (simp add: kappa_scores_def Let_def)

lemma length_pv_scores: "length (pv_scores t) = length (cells t)"
  by (simp add: pv_scores_def Let_def)

lemma sorted_series:
  assumes "length vals = length idx"
  shows "mset (map fst (sort_values (zip idx vals))) = mset idx"
    and "distinct idx \<Longrightarrow> distinct (map fst (sort_values (zip idx vals)))"
    and "sorted_wrt desc (map snd (sort_values (zip idx vals)))"
    and "mset (map snd (sort_values (zip idx vals))) = mset vals"
proof -
  have "mset (map fst (sort_values (zip idx vals))) = image_mset fst (mset (zip idx vals))"
    by (simp add: mset_sort_values)
  also have "\<dots> = mset (map fst (zip idx vals))" by simp
  finally show a: "mset (map fst (sort_values (zip idx vals))) = mset idx"
    using assms by simp
  show "distinct (map fst (sort_values (zip idx vals)))" if "distinct idx"
    using a that by (metis mset_eq_imp_distinct_iff)
  show "sorted_wrt desc (map snd (sort_values (zip idx vals)))"
    by (rule descending_sort_values)
  have "mset (map snd (sort_values (zip idx vals))) = image_mset snd (mset (zip idx vals))"
    by (simp add: mset_sort_values)
  also have "\<dots> = mset (map snd (zip idx vals))" by simp
  finally show "mset (map snd (sort_values (zip idx vals))) = mset vals"
    using assms by simp
qed

lemma upt2: "[0..<2] = [0, 1]"
  by (simp add: upt_rec)

lemma example_wf: "wf_frame example_scores"
  by (simp add: wf_frame_def example_scores_def)

section \<open>The shape of the result\<close>

text \<open>
  C8. On a table with distinct project labels, \<open>kappa_adjusted\<close> (which raises only for
  \<open>kappa = -1\<close>) and \<open>proportional_variance\<close> return a Series whose labels are exactly the
  labels of the table, each once, in descending order of the values (NaN values, which
  \<open>sort_values\<close> puts last, included).
\<close>

theorem one_entry_per_project_sorted:
  assumes "wf_frame t" and "distinct (index t)"
  shows "(kappa \<noteq> -1 \<longrightarrow>
           (\<exists>res. kappa_adjusted t kappa nrm = Inr res
              \<and> mset (map fst res) = mset (index t) \<and> distinct (map fst res)
              \<and> sorted_wrt desc (map snd res)))
       \<and> (\<exists>res. proportional_variance t nrm = Inr res
              \<and> mset (map fst res) = mset (index t) \<and> distinct (map fst res)
              \<and> sorted_wrt desc (map snd res))"
proof -
  have len: "length (cells t) = length (index t)" using assms(1) by (simp add: wf_frame_def)
  have k: "length (if nrm then normalize_arr (kappa_scores t kappa) else kappa_scores t kappa)
             = length (index t)"
    by (simp add: length_normalize_arr length_kappa_scores len)
  have p: "length (if nrm then normalize_arr (pv_scores t) else pv_scores t) = length (index t)"
    by (simp add: length_normalize_arr length_pv_scores len)
  have "kappa \<noteq> -1 \<Longrightarrow> 1 + kappa \<noteq> 0" by simp
  then show ?thesis
    using sorted_series[OF k] sorted_series[OF p] assms(2)
    by (simp add: kappa_adjusted_def proportional_variance_def Let_def)
qed

theorem one_entry_per_project_sorted_witness:
  "wf_frame example_scores \<and> distinct (index example_scores)
   \<and> (\<exists>res. kappa_adjusted example_scores 0 False = Inr res
          \<and> mset (map fst res) = mset (index example_scores) \<and> distinct (map fst res)
          \<and> sorted_wrt desc (map snd res))
   \<and> (\<exists>res. proportional_variance example_scores False = Inr res
          \<and> mset (map fst res) = mset (index example_scores) \<and> distinct (map fst res)
          \<and> sorted_wrt desc (map snd res))"
proof -
  have d: "distinct (index example_scores)" by (simp add: example_scores_def)
  from one_entry_per_project_sorted[OF example_wf d, of 0 False] example_wf d
  show ?thesis by simp
qed

section \<open>Minimum, maximum and normalisation\<close>

lemma fmin2_fin: "fmin2 (Fin a) (Fin b) = Fin (min a b)"
  by (simp add: fmin2_def min_def)

lemma fmax2_fin: "fmax2 (Fin a) (Fin b) = Fin (max a b)"
  by (simp add: fmax2_def max_def)

lemma foldl_fmin2_fin: "foldl fmin2 (Fin y) (map Fin ys) = Fin (Min (set (y # ys)))"
proof (induction ys arbitrary: y)
  case Nil
  then show ?case by simp
next
  case (Cons z zs)
  have "Min (set (min y z # zs)) = Min (set (y # z # zs))"
    by (cases "set zs = {}") (simp_all add: min.assoc)
  with Cons[of "min y z"] show ?case by (simp add: fmin2_fin)
qed

lemma foldl_fmax2_fin: "foldl fmax2 (Fin y) (map Fin ys) = Fin (Max (set (y # ys)))"
proof (induction ys arbitrary: y)
  case Nil
  then show ?case by simp
next
  case (Cons z zs)
  have "Max (set (max y z # zs)) = Max (set (y # z # zs))"
    by (cases "set zs = {}") (simp_all add: max.assoc)
  with Cons[of "max y z"] show ?case by (simp add: fmax2_fin)
qed

lemma filter_fin: "filter (\<lambda>x. x \<noteq> NaN) (map Fin xs) = map Fin xs"
  by (induction xs) auto

lemma series_min_fin: "xs \<noteq> [] \<Longrightarrow> series_min (map Fin xs) = Fin (Min (set xs))"
  by (cases xs) (simp_all add: series_min_def filter_fin foldl_fmin2_fin del: filter_map)

lemma series_max_fin: "xs \<noteq> [] \<Longrightarrow> series_max (map Fin xs) = Fin (Max (set xs))"
  by (cases xs) (simp_all add: series_max_def filter_fin foldl_fmax2_fin del: filter_map)

lemma fsub_fin: "fsub (Fin x) (Fin a) = Fin (x - a)"
  by (simp add: fsub_def)

lemma fdiv_fin: "q \<noteq> 0 \<Longrightarrow> fdiv (Fin p) (Fin q) = Fin (p / q)"
  by simp

lemma normalize_gen:
  assumes "series_min (map Fin xs) = Fin a" and "series_max (map Fin xs) = Fin b" and "a < b"
  shows "normalize_arr (map Fin xs) = map Fin (map (\<lambda>x. (x - a) / (b - a)) xs)"
  using assms(3) by (simp add: normalize_arr_def assms(1,2) fsub_fin fdiv_fin)

lemma normalize_fin:
  assumes "xs \<noteq> []" and "Min (set xs) < Max (set xs)"
  shows "normalize_arr (map Fin xs)
           = map Fin (map (\<lambda>x. (x - Min (set xs)) / (Max (set xs) - Min (set xs))) xs)"
  using assms by (intro normalize_gen series_min_fin series_max_fin)

lemma scaled_range:
  fixes a b :: real
  assumes "finite S" and "a \<in> S" and "b \<in> S" and "a < b" and "\<forall>x\<in>S. a \<le> x \<and> x \<le> b"
  shows "Min ((\<lambda>x. (x - a) / (b - a)) ` S) = 0" and "Max ((\<lambda>x. (x - a) / (b - a)) ` S) = 1"
proof -
  let ?f = "\<lambda>x. (x - a) / (b - a)"
  have pos: "0 < b - a" using assms(4) by linarith
  have f: "finite (?f ` S)" using assms(1) by simp
  have lo: "0 \<le> ?f x" and hi: "?f x \<le> 1" if "x \<in> S" for x
    using that assms(5) pos by (simp_all add: divide_le_eq_1)
  have "?f a = 0" by simp
  then have "0 \<in> ?f ` S" using assms(2) by (metis imageI)
  then show "Min (?f ` S) = 0" using lo f by (intro Min_eqI) auto
  have "?f b = 1" using pos by simp
  then have "1 \<in> ?f ` S" using assms(3) by (metis imageI)
  then show "Max (?f ` S) = 1" using hi f by (intro Max_eqI) auto
qed

lemma normalize_fin_range:
  fixes xs :: "real list"
  assumes "xs \<noteq> []" and "Min (set xs) < Max (set xs)"
  shows "Min (set (map (\<lambda>x. (x - Min (set xs)) / (Max (set xs) - Min (set xs))) xs)) = 0"
    and "Max (set (map (\<lambda>x. (x - Min (set xs)) / (Max (set xs) - Min (set xs))) xs)) = 1"
proof -
  have "finite (set xs)" "Min (set xs) \<in> set xs" "Max (set xs) \<in> set xs"
    "\<forall>x\<in>set xs. Min (set xs) \<le> x \<and> x \<le> Max (set xs)"
    using assms(1) by simp_all
  from scaled_range[OF this(1,2,3) assms(2) this(4)]
  show "Min (set (map (\<lambda>x. (x - Min (set xs)) / (Max (set xs) - Min (set xs))) xs)) = 0"
    and "Max (set (map (\<lambda>x. (x - Min (set xs)) / (Max (set xs) - Min (set xs))) xs)) = 1"
    by (simp_all only: set_map)
qed

lemma fin_list: "(\<forall>v\<in>set vs. is_fin v) \<Longrightarrow> \<exists>zs. vs = map Fin zs"
proof (induction vs)
  case Nil
  then show ?case by simp
next
  case (Cons v vs)
  then obtain zs where "vs = map Fin zs" by auto
  moreover from Cons.prems obtain r where "v = Fin r" by (cases v) auto
  ultimately have "v # vs = map Fin (r # zs)" by simp
  then show ?case by (rule exI)
qed

text \<open>The minimum and the maximum of a Series of finite values depend on its values only,
  not on their order.\<close>

lemma series_min_perm:
  assumes "mset vs = mset (map Fin zs)" and "zs \<noteq> []"
  shows "series_min vs = Fin (Min (set zs))" and "series_max vs = Fin (Max (set zs))"
proof -
  from assms(1) have s: "set vs = Fin ` set zs" by (metis set_map set_mset_mset)
  then have "\<forall>v\<in>set vs. is_fin v" by auto
  then obtain ys where ys: "vs = map Fin ys" using fin_list by blast
  with s have "Fin ` set ys = Fin ` set zs" by simp
  then have e: "set ys = set zs" by (simp add: inj_image_eq_iff inj_on_def)
  from assms have "ys \<noteq> []" using ys by auto
  then show "series_min vs = Fin (Min (set zs))" "series_max vs = Fin (Max (set zs))"
    by (simp_all add: ys series_min_fin series_max_fin e)
qed

lemma normalize_const:
  assumes "xs \<noteq> []" and "\<forall>x\<in>set xs. x = c"
  shows "normalize_arr xs = replicate (length xs) NaN"
proof -
  from assms obtain n where xs: "xs = replicate (Suc n) c"
    by (metis length_greater_0_conv replicate_eqI Suc_pred)
  have f: "foldl f c (replicate m c) = c" if "f c c = c" for f :: "fval \<Rightarrow> fval \<Rightarrow> fval" and m
    using that by (induction m) auto
  have mn: "series_min xs = c"
    by (cases "c = NaN") (simp_all add: series_min_def xs f fmin2_def)
  have mx: "series_max xs = c"
    by (cases "c = NaN") (simp_all add: series_max_def xs f fmax2_def)
  have d: "fdiv (fsub c c) (fsub c c) = NaN"
    by (cases c) (simp_all add: fsub_def inf_of_sign_def)
  show ?thesis
    unfolding normalize_arr_def mn mx Let_def by (simp add: xs d map_replicate_const)
qed

section \<open>The statistics of a judge\<close>

lemma sum_list_upt: "sum_list (map f [0..<n]) = (\<Sum>j<n. f j)" for f :: "nat \<Rightarrow> real"
  by (simp add: interv_sum_list_conv_sum_set_nat atLeast0LessThan)

lemma column_nth:
  assumes "wf_frame t"
  shows "column t j = map (\<lambda>p. score t p j) [0..<length (index t)]"
proof -
  have "length (cells t) = length (index t)" using assms by (simp add: wf_frame_def)
  then show ?thesis
    by (intro nth_equalityI) (simp_all add: column_def score_def)
qed

lemma column_sum:
  assumes "wf_frame t"
  shows "sum_list (column t j) = (\<Sum>p<length (index t). score t p j)"
  by (simp add: column_nth[OF assms] sum_list_upt)

lemma length_column: "wf_frame t \<Longrightarrow> length (column t j) = length (index t)"
  by (simp add: column_nth)

lemma col_mean_spec:
  assumes "wf_frame t" and "index t \<noteq> []"
  shows "col_mean (column t j) = Fin (spec_mean t j)"
proof -
  have "column t j \<noteq> []" using length_column[OF assms(1), of j] assms(2) by auto
  then show ?thesis
    by (simp add: col_mean_def spec_mean_def column_sum[OF assms(1)] length_column[OF assms(1)])
qed

lemma sq_dev_spec:
  assumes "wf_frame t"
  shows "sq_dev (column t j) = (\<Sum>p<length (index t). (score t p j - spec_mean t j)\<^sup>2)"
proof -
  have m: "sum_list (column t j) / real (length (column t j)) = spec_mean t j"
    by (simp add: spec_mean_def column_sum[OF assms] length_column[OF assms])
  have "sq_dev (column t j) = sum_list (map (\<lambda>x. (x - spec_mean t j)\<^sup>2) (column t j))"
    unfolding sq_dev_def m Let_def ..
  also have "\<dots> = sum_list (map (\<lambda>p. (score t p j - spec_mean t j)\<^sup>2) [0..<length (index t)])"
    by (simp add: column_nth[OF assms] comp_def)
  finally show ?thesis by (simp add: sum_list_upt)
qed

lemma col_var_spec:
  assumes "wf_frame t"
  shows "col_var (column t j) = (if length (index t) \<le> 1 then NaN else Fin (spec_var t j))"
  by (simp add: col_var_def spec_var_def sq_dev_spec[OF assms] length_column[OF assms])

lemma col_std_spec:
  assumes "wf_frame t"
  shows "col_std (column t j) = (if length (index t) \<le> 1 then NaN else Fin (spec_std t j))"
  by (simp add: col_std_def spec_std_def spec_var_def sq_dev_spec[OF assms] length_column[OF assms])

lemma spec_var_nonneg: "0 \<le> spec_var t j"
  by (simp add: spec_var_def sum_nonneg)

lemma spec_var_degenerate: "length (index t) \<le> 1 \<Longrightarrow> spec_var t j = 0"
proof -
  assume "length (index t) \<le> 1"
  then consider "length (index t) = 0" | "length (index t) = 1" by linarith
  then show ?thesis by cases (simp_all add: spec_var_def)
qed

text \<open>A score off its judge's mean needs a second project, and makes the deviation positive.\<close>

lemma deviation_spread:
  assumes "p < length (index t)" and "score t p j \<noteq> spec_mean t j"
  shows "2 \<le> length (index t)" and "0 < spec_var t j" and "0 < spec_std t j"
proof -
  show two: "2 \<le> length (index t)"
  proof (rule ccontr)
    assume "\<not> 2 \<le> length (index t)"
    with assms(1) have "length (index t) = 1" and "p = 0" by simp_all
    then have "spec_mean t j = score t p j" by (simp add: spec_mean_def)
    with assms(2) show False by simp
  qed
  have "0 < (score t p j - spec_mean t j)\<^sup>2" using assms(2) by simp
  also have "\<dots> \<le> (\<Sum>q<length (index t). (score t q j - spec_mean t j)\<^sup>2)"
    using assms(1) by (intro member_le_sum) simp_all
  finally have "0 < (\<Sum>q<length (index t). (score t q j - spec_mean t j)\<^sup>2)" .
  then show "0 < spec_var t j" using two by (simp add: spec_var_def)
  then show "0 < spec_std t j" by (simp add: spec_std_def)
qed

section \<open>The adjusted scores of \<open>kappa_adjusted\<close>\<close>

lemma nansum_map:
  "(\<forall>x\<in>set xs. g x = Fin (c x) \<or> (g x = NaN \<and> c x = 0))
     \<Longrightarrow> nansum (map g xs) = Fin (sum_list (map c xs))"
  by (induction xs) auto

lemma nansum_upt:
  assumes "\<forall>j<n. g j = Fin (c j) \<or> (g j = NaN \<and> c j = 0)"
  shows "nansum (map g [0..<n]) = Fin (\<Sum>j<n. c j)"
proof -
  have "nansum (map g [0..<n]) = Fin (sum_list (map c [0..<n]))"
    using assms by (intro nansum_map) simp
  then show ?thesis by (simp add: sum_list_upt)
qed

lemma zip_row:
  assumes "length row = n"
  shows "map F (zip row (zip (map A [0..<n]) (map S [0..<n])))
           = map (\<lambda>j. F (row ! j, A j, S j)) [0..<n]"
  using assms by (intro nth_equalityI) simp_all

lemma zip_weights:
  assumes "length row = n"
  shows "map F (zip (map W [0..<n]) row) = map (\<lambda>j. F (W j, row ! j)) [0..<n]"
  using assms by (intro nth_equalityI) simp_all

lemma row_length:
  assumes "wf_frame t" and "p < length (index t)"
  shows "length (cells t ! p) = ncols t"
  using assms by (simp add: wf_frame_def list_all_length)

lemma kappa_scores_rows:
  assumes "wf_frame t"
  shows "kappa_scores t kappa =
     map (\<lambda>p. nansum (map (\<lambda>j. kappa_cell kappa (1 / (1 + kappa)) (col_mean (column t j))
                                   (col_std (column t j)) (score t p j)) [0..<ncols t]))
         [0..<length (index t)]"
proof -
  have len: "length (cells t) = length (index t)" using assms by (simp add: wf_frame_def)
  show ?thesis
  proof (rule nth_equalityI)
    show "length (kappa_scores t kappa) = length (map (\<lambda>p. nansum (map (\<lambda>j. kappa_cell kappa (1 / (1 + kappa)) (col_mean (column t j))
                                   (col_std (column t j)) (score t p j)) [0..<ncols t]))
         [0..<length (index t)])"
      by (simp add: kappa_scores_def len)
  next
    fix p assume "p < length (kappa_scores t kappa)"
    then have p: "p < length (index t)" by (simp add: kappa_scores_def len)
    note r = row_length[OF assms p]
    show "kappa_scores t kappa ! p = map (\<lambda>p. nansum (map (\<lambda>j. kappa_cell kappa (1 / (1 + kappa)) (col_mean (column t j))
                                   (col_std (column t j)) (score t p j)) [0..<ncols t]))
         [0..<length (index t)] ! p"
      using p by (simp add: kappa_scores_def len mean_axis0_def std_axis0_def zip_row[OF r] score_def)
  qed
qed

lemma kappa_scores_eq:
  assumes "wf_frame t"
    and "\<forall>p<length (index t). \<forall>j<ncols t.
           kappa_cell kappa (1 / (1 + kappa)) (col_mean (column t j)) (col_std (column t j)) (score t p j) = Fin (c p j)
         \<or> (kappa_cell kappa (1 / (1 + kappa)) (col_mean (column t j)) (col_std (column t j)) (score t p j) = NaN
             \<and> c p j = 0)"
  shows "kappa_scores t kappa = map (\<lambda>p. Fin (\<Sum>j<ncols t. c p j)) [0..<length (index t)]"
  unfolding kappa_scores_rows[OF assms(1)]
  using assms(2) by (intro map_cong refl nansum_upt) simp

lemma zero_dev_cell: "fmul (fsign (Fin 0)) y = Fin 0 \<or> fmul (fsign (Fin 0)) y = NaN"
  by (cases y) (simp_all add: inf_of_sign_def)

lemma kappa_cell_spec:
  assumes "wf_frame t" and "p < length (index t)" and "1 + kappa \<noteq> 0"
  shows "kappa_cell kappa (1 / (1 + kappa)) (col_mean (column t j)) (col_std (column t j)) (score t p j)
           = Fin (spec_contribution t kappa p j)
       \<or> (kappa_cell kappa (1 / (1 + kappa)) (col_mean (column t j)) (col_std (column t j)) (score t p j) = NaN
           \<and> spec_contribution t kappa p j = 0)"
proof -
  from assms(2) have ne: "index t \<noteq> []" by auto
  note m = col_mean_spec[OF assms(1) ne]
  show ?thesis
  proof (cases "score t p j = spec_mean t j")
    case True
    then show ?thesis
      using zero_dev_cell by (simp add: kappa_cell_def m fsub_fin spec_contribution_def)
  next
    case False
    note sp = deviation_spread[OF assms(2) False]
    have sd: "col_std (column t j) = Fin (spec_std t j)"
      using sp(1) by (simp add: col_std_spec[OF assms(1)])
    have pw: "fpow (Fin (spec_std t j)) kappa = Fin (spec_std t j powr kappa)"
      using sp(3) by simp
    have pos: "0 < \<bar>score t p j - spec_mean t j\<bar> * spec_std t j powr kappa"
      using False sp(3) by simp
    have e: "1 / (1 + kappa) \<noteq> 0" using assms(3) by simp
    have "kappa_cell kappa (1 / (1 + kappa)) (col_mean (column t j)) (col_std (column t j)) (score t p j)
           = Fin (spec_contribution t kappa p j)"
      unfolding kappa_cell_def m sd fsub_fin pw
      using pos e False by (simp add: spec_contribution_def Let_def)
    then show ?thesis ..
  qed
qed

lemma kappa_scores_spec:
  assumes "wf_frame t" and "1 + kappa \<noteq> 0"
  shows "kappa_scores t kappa = map (\<lambda>p. Fin (spec_kappa t kappa p)) [0..<length (index t)]"
  unfolding spec_kappa_def
  using kappa_cell_spec[OF assms(1) _ assms(2)] by (intro kappa_scores_eq[OF assms(1)]) blast

lemma kappa_cell_zero: "kappa_cell 0 1 (Fin m) sd x = Fin (x - m)"
proof -
  have "fpow (Fin \<bar>x - m\<bar>) 1 = Fin \<bar>x - m\<bar>" by simp
  then show ?thesis
    by (simp add: kappa_cell_def fsub_fin del: fpow.simps) (simp add: sgn_real_def)
qed

section \<open>The result of \<open>kappa_adjusted\<close>\<close>

lemma example_three_kappa1:
  "kappa_adjusted example_three 1 False = Inr [(''P3'', Fin 1), (''P2'', Fin 0), (''P1'', Fin (- 1))]"
  by (simp add: kappa_adjusted_def kappa_scores_def example_three_def mean_axis0_def std_axis0_def
      column_def col_mean_def col_std_def sq_dev_def kappa_cell_def fsub_def desc_def)

lemma series_lookup:
  assumes "length vals = length idx" and "distinct idx" and "p < length idx"
  shows "map_of (sort_values (zip idx vals)) (idx ! p) = Some (vals ! p)"
proof -
  have "(idx ! p, vals ! p) \<in> set (zip idx vals)"
    using assms(1,3) by (auto simp: set_zip)
  then have "(idx ! p, vals ! p) \<in> set (sort_values (zip idx vals))"
    by (simp add: set_sort_values)
  moreover have "distinct (map fst (sort_values (zip idx vals)))"
    using sorted_series(2)[OF assms(1,2)] .
  ultimately show ?thesis by (rule map_of_is_SomeI[rotated])
qed

lemma kappa_adjusted_raw:
  assumes "wf_frame t" and "1 + kappa \<noteq> 0"
    and "kappa_scores t kappa = map (\<lambda>p. Fin (f p)) [0..<length (index t)]"
    and "distinct (index t)"
  shows "\<exists>res. kappa_adjusted t kappa False = Inr res \<and> length res = length (index t)
           \<and> (\<forall>p<length (index t). map_of res (index t ! p) = Some (Fin (f p)))"
proof -
  let ?vals = "map (\<lambda>p. Fin (f p)) [0..<length (index t)]"
  have l: "length ?vals = length (index t)" by simp
  have "kappa_adjusted t kappa False = Inr (sort_values (zip (index t) ?vals))"
    using assms(2) by (simp add: kappa_adjusted_def assms(3))
  moreover have "length (sort_values (zip (index t) ?vals)) = length (index t)"
    by (simp add: length_sort_values)
  moreover have "map_of (sort_values (zip (index t) ?vals)) (index t ! p) = Some (Fin (f p))"
    if "p < length (index t)" for p
    using series_lookup[OF l assms(4) that] that by simp
  ultimately show ?thesis by blast
qed

lemma example_three_spec: "spec_kappa example_three 1 2 = 1"
  by (simp add: spec_kappa_def spec_contribution_def spec_std_def spec_var_def spec_mean_def
      score_def example_three_def eval_nat_numeral)

text \<open>
  C1. On a table with at least one project and one judge and for \<open>kappa \<noteq> -1\<close>,
  \<open>kappa_adjusted\<close> without normalisation returns, at every project \<open>p\<close>, the sum over the
  judges \<open>j\<close> of \<open>sign(d) * (|d| * sigma_j^kappa)^(1/(1+kappa))\<close>, where
  \<open>d = score[p,j] - mu_j\<close>. A deviation of zero contributes zero: the term of the formula is
  \<open>0\<close>, and the cell the code computes is \<open>0.0\<close> or a NaN that the row sum skips. (Where
  \<open>sigma_j = 0\<close> every deviation of the judge is zero, so the value given to \<open>0^kappa\<close> plays
  no part.)
\<close>

theorem kappa_adjusted_formula:
  assumes "wf_frame t" and "distinct (index t)" and "index t \<noteq> []" and "0 < ncols t"
    and "kappa \<noteq> -1"
  shows "\<exists>res. kappa_adjusted t kappa False = Inr res \<and> length res = length (index t)
       \<and> (\<forall>p<length (index t). map_of res (index t ! p) = Some (Fin (spec_kappa t kappa p)))
       \<and> (\<forall>p<length (index t). \<forall>j<ncols t. score t p j = spec_mean t j \<longrightarrow>
             spec_contribution t kappa p j = 0
           \<and> kappa_cell kappa (1 / (1 + kappa)) (mean_axis0 t ! j) (std_axis0 t ! j) (score t p j)
               \<in> {Fin 0, NaN})"
proof -
  have k: "1 + kappa \<noteq> 0" using assms(5) by simp
  have "kappa_scores t kappa = map (\<lambda>p. Fin (spec_kappa t kappa p)) [0..<length (index t)]"
    using assms(1) k by (rule kappa_scores_spec)
  note a = kappa_adjusted_raw[OF assms(1) k this assms(2)]
  have b: "spec_contribution t kappa p j = 0
       \<and> kappa_cell kappa (1 / (1 + kappa)) (mean_axis0 t ! j) (std_axis0 t ! j) (score t p j)
               \<in> {Fin 0, NaN}"
    if "p < length (index t)" "j < ncols t" "score t p j = spec_mean t j" for p j
  proof -
    have "mean_axis0 t ! j = Fin (spec_mean t j)"
      using that(2) col_mean_spec[OF assms(1,3)] by (simp add: mean_axis0_def)
    then show ?thesis
      using zero_dev_cell by (auto simp: kappa_cell_def fsub_fin that(3) spec_contribution_def)
  qed
  from a b show ?thesis by blast
qed

theorem kappa_adjusted_formula_witness:
  "wf_frame example_three \<and> distinct (index example_three) \<and> index example_three \<noteq> []
   \<and> 0 < ncols example_three \<and> (1::real) \<noteq> -1
   \<and> (\<exists>res. kappa_adjusted example_three 1 False = Inr res \<and> map_of res ''P3'' = Some (Fin 1))"
proof -
  have h: "wf_frame example_three" "distinct (index example_three)" "index example_three \<noteq> []"
    "0 < ncols example_three" "(1::real) \<noteq> -1"
    by (simp_all add: example_three_def wf_frame_def)
  from kappa_adjusted_formula[OF h] obtain res where
    r: "kappa_adjusted example_three 1 False = Inr res"
      "\<forall>p<length (index example_three). map_of res (index example_three ! p) =
             Some (Fin (spec_kappa example_three 1 p))"
    by blast
  have "2 < length (index example_three)" "index example_three ! 2 = ''P3''"
    by (simp_all add: example_three_def)
  with r(2) have "map_of res ''P3'' = Some (Fin (spec_kappa example_three 1 2))" by metis
  with r(1) h show ?thesis by (simp add: example_three_spec)
qed

lemma example_flat_spec:
  "(\<Sum>j<ncols example_flat. sgn (score example_flat 0 j - spec_mean example_flat j)
       * \<bar>score example_flat 0 j - spec_mean example_flat j\<bar>) = 2"
  by (simp add: spec_mean_def score_def example_flat_def eval_nat_numeral)

text \<open>
  C5. With \<open>kappa = 0\<close> and no normalisation \<open>kappa_adjusted\<close> returns, at every project, the
  sum over the judges of \<open>sign(d) * |d|\<close>, which is the sum of the deviations \<open>d\<close>; nothing is
  asked of the standard deviations, which may be zero (or undefined, on a single project).
\<close>

theorem kappa_zero_deviation_sum:
  assumes "wf_frame t" and "distinct (index t)" and "index t \<noteq> []" and "0 < ncols t"
  shows "\<exists>res. kappa_adjusted t 0 False = Inr res \<and> length res = length (index t)
       \<and> (\<forall>p<length (index t). map_of res (index t ! p) =
             Some (Fin (\<Sum>j<ncols t. sgn (score t p j - spec_mean t j) * \<bar>score t p j - spec_mean t j\<bar>))
           \<and> (\<Sum>j<ncols t. sgn (score t p j - spec_mean t j) * \<bar>score t p j - spec_mean t j\<bar>)
               = (\<Sum>j<ncols t. score t p j - spec_mean t j))"
proof -
  have "kappa_scores t 0 = map (\<lambda>p. Fin (\<Sum>j<ncols t. score t p j - spec_mean t j)) [0..<length (index t)]"
    by (intro kappa_scores_eq[OF assms(1)]) (simp add: col_mean_spec[OF assms(1,3)] kappa_cell_zero)
  from kappa_adjusted_raw[OF assms(1) _ this assms(2)]
  show ?thesis by (simp add: sgn_mult_abs)
qed


theorem kappa_zero_deviation_sum_witness:
  "wf_frame example_flat \<and> distinct (index example_flat) \<and> index example_flat \<noteq> []
   \<and> 0 < ncols example_flat \<and> spec_std example_flat 1 = 0
   \<and> (\<exists>res. kappa_adjusted example_flat 0 False = Inr res \<and> map_of res ''P1'' = Some (Fin 2))"
proof -
  have h: "wf_frame example_flat" "distinct (index example_flat)" "index example_flat \<noteq> []"
    "0 < ncols example_flat"
    by (simp_all add: example_flat_def wf_frame_def)
  from kappa_zero_deviation_sum[OF h] obtain res where
    r: "kappa_adjusted example_flat 0 False = Inr res"
      "\<forall>p<length (index example_flat). map_of res (index example_flat ! p) =
         Some (Fin (\<Sum>j<ncols example_flat. sgn (score example_flat p j - spec_mean example_flat j)
                      * \<bar>score example_flat p j - spec_mean example_flat j\<bar>))"
    by blast
  have "0 < length (index example_flat)" "index example_flat ! 0 = ''P1''"
    by (simp_all add: example_flat_def)
  with r(2) have "map_of res ''P1'' =
         Some (Fin (\<Sum>j<ncols example_flat. sgn (score example_flat 0 j - spec_mean example_flat j)
                      * \<bar>score example_flat 0 j - spec_mean example_flat j\<bar>))" by metis
  moreover have "spec_std example_flat 1 = 0"
    by (simp add: spec_std_def spec_var_def spec_mean_def score_def example_flat_def eval_nat_numeral)
  ultimately show ?thesis using r(1) h by (simp add: example_flat_spec)
qed

section \<open>The result of \<open>proportional_variance\<close>\<close>

lemma pv_weights_spec:
  assumes "wf_frame t"
  shows "pv_weights t =
     map (\<lambda>j. if 2 \<le> length (index t) \<and> (\<Sum>k<ncols t. spec_var t k) \<noteq> 0
               then Fin (spec_weight t j) else NaN) [0..<ncols t]"
proof (cases "2 \<le> length (index t)")
  case False
  then have "var_axis0 t = map (\<lambda>j. NaN) [0..<ncols t]"
    by (simp add: var_axis0_def col_var_spec[OF assms])
  then show ?thesis using False by (simp add: pv_weights_def)
next
  case True
  then have v: "var_axis0 t = map (\<lambda>j. Fin (spec_var t j)) [0..<ncols t]"
    by (simp add: var_axis0_def col_var_spec[OF assms])
  have s: "nansum (map (\<lambda>j. Fin (spec_var t j)) [0..<ncols t]) = Fin (\<Sum>k<ncols t. spec_var t k)"
    by (intro nansum_upt) simp
  show ?thesis
  proof (cases "(\<Sum>k<ncols t. spec_var t k) = 0")
    case nz: False
    then show ?thesis using True by (simp add: pv_weights_def v s spec_weight_def)
  next
    case z: True
    then have "\<forall>k<ncols t. spec_var t k = 0"
      using sum_nonneg_eq_0_iff[of "{..<ncols t}" "spec_var t"] by (simp add: spec_var_nonneg)
    then show ?thesis using z by (simp add: pv_weights_def v s inf_of_sign_def)
  qed
qed

lemma spec_weight_degenerate:
  assumes "\<not> (2 \<le> length (index t) \<and> (\<Sum>k<ncols t. spec_var t k) \<noteq> 0)"
  shows "spec_weight t j = 0"
proof (cases "2 \<le> length (index t)")
  case True
  with assms show ?thesis by (simp add: spec_weight_def)
next
  case False
  then have "spec_var t j = 0" by (intro spec_var_degenerate) simp
  then show ?thesis by (simp add: spec_weight_def)
qed

lemma pv_scores_rows:
  assumes "wf_frame t" and "pv_weights t = map W [0..<ncols t]"
  shows "pv_scores t =
     map (\<lambda>p. nansum (map (\<lambda>j. fmul (W j) (Fin (score t p j))) [0..<ncols t])) [0..<length (index t)]"
proof -
  have len: "length (cells t) = length (index t)" using assms(1) by (simp add: wf_frame_def)
  show ?thesis
  proof (rule nth_equalityI)
    show "length (pv_scores t) = length (map (\<lambda>p. nansum (map (\<lambda>j. fmul (W j) (Fin (score t p j))) [0..<ncols t])) [0..<length (index t)])"
      by (simp add: pv_scores_def len)
  next
    fix p assume "p < length (pv_scores t)"
    then have p: "p < length (index t)" by (simp add: pv_scores_def len)
    note r = row_length[OF assms(1) p]
    show "pv_scores t ! p = map (\<lambda>p. nansum (map (\<lambda>j. fmul (W j) (Fin (score t p j))) [0..<ncols t])) [0..<length (index t)] ! p"
      using p by (simp add: pv_scores_def len assms(2) zip_weights[OF r] score_def)
  qed
qed

lemma pv_scores_spec:
  assumes "wf_frame t"
  shows "pv_scores t = map (\<lambda>p. Fin (spec_pv t p)) [0..<length (index t)]"
proof -
  let ?ok = "2 \<le> length (index t) \<and> (\<Sum>k<ncols t. spec_var t k) \<noteq> 0"
  let ?W = "\<lambda>j. if ?ok then Fin (spec_weight t j) else NaN"
  have cell: "fmul (?W j) (Fin (score t p j)) = Fin (spec_weight t j * score t p j)
       \<or> (fmul (?W j) (Fin (score t p j)) = NaN \<and> spec_weight t j * score t p j = 0)" for p j
    using spec_weight_degenerate[of t j] by (cases ?ok) simp_all
  have "nansum (map (\<lambda>j. fmul (?W j) (Fin (score t p j))) [0..<ncols t]) = Fin (spec_pv t p)" for p
    unfolding spec_pv_def using cell by (intro nansum_upt) blast
  then show ?thesis
    by (simp add: pv_scores_rows[OF assms pv_weights_spec[OF assms]])
qed

lemma series_of_fin:
  assumes "distinct idx"
  shows "length (sort_values (zip idx (map (\<lambda>p. Fin (f p)) [0..<length idx]))) = length idx"
    and "\<forall>p<length idx. map_of (sort_values (zip idx (map (\<lambda>p. Fin (f p)) [0..<length idx]))) (idx ! p)
           = Some (Fin (f p))"
proof -
  let ?vals = "map (\<lambda>p. Fin (f p)) [0..<length idx]"
  have l: "length ?vals = length idx" by simp
  show "length (sort_values (zip idx ?vals)) = length idx" by (simp add: length_sort_values)
  show "\<forall>p<length idx. map_of (sort_values (zip idx ?vals)) (idx ! p) = Some (Fin (f p))"
    using series_lookup[OF l assms] by simp
qed

lemma example_scores_pv: "spec_pv example_scores 0 = 182 / 25"
  by (simp add: spec_pv_def spec_weight_def spec_var_def spec_mean_def score_def example_scores_def
      eval_nat_numeral power2_eq_square)

text \<open>
  C2. On a table with at least one project and one judge in which some judge has a
  variance other than zero, \<open>proportional_variance\<close> without normalisation returns, at every
  project \<open>p\<close>, the weighted average \<open>\<Sum>j. w_j * score[p,j]\<close> with \<open>w_j = v_j / \<Sum>k. v_k\<close>;
  the weights the code computes are these, and they sum to \<open>1\<close>. The variance is the sample
  variance pandas computes; the weights are the same for the population variance.
\<close>

theorem proportional_variance_formula:
  assumes "wf_frame t" and "distinct (index t)" and "index t \<noteq> []" and "0 < ncols t"
    and "\<exists>j<ncols t. spec_var t j \<noteq> 0"
  shows "\<exists>res. proportional_variance t False = Inr res \<and> length res = length (index t)
       \<and> (\<forall>p<length (index t). map_of res (index t ! p) = Some (Fin (spec_pv t p)))
       \<and> pv_weights t = map (\<lambda>j. Fin (spec_weight t j)) [0..<ncols t]
       \<and> nansum (pv_weights t) = Fin 1
       \<and> (\<Sum>j<ncols t. spec_weight t j) = 1"
proof -
  from assms(5) obtain j where j: "j < ncols t" "spec_var t j \<noteq> 0" by blast
  have two: "2 \<le> length (index t)"
    using spec_var_degenerate[of t j] j(2) by (cases "length (index t) \<le> 1") simp_all
  have "0 < spec_var t j" using j(2) spec_var_nonneg[of t j] by simp
  also have "\<dots> \<le> (\<Sum>k<ncols t. spec_var t k)"
    using j(1) by (intro member_le_sum) (simp_all add: spec_var_nonneg)
  finally have tot: "(\<Sum>k<ncols t. spec_var t k) \<noteq> 0" by simp
  have w: "pv_weights t = map (\<lambda>j. Fin (spec_weight t j)) [0..<ncols t]"
    using two tot by (simp add: pv_weights_spec[OF assms(1)])
  have one: "(\<Sum>j<ncols t. spec_weight t j) = 1"
    using tot by (simp add: spec_weight_def sum_divide_distrib[symmetric])
  have n: "nansum (pv_weights t) = Fin 1"
    unfolding w one[symmetric] by (intro nansum_upt) simp
  have "proportional_variance t False
          = Inr (sort_values (zip (index t) (map (\<lambda>p. Fin (spec_pv t p)) [0..<length (index t)])))"
    by (simp add: proportional_variance_def pv_scores_spec[OF assms(1)])
  with series_of_fin[OF assms(2), of "spec_pv t"] w n one show ?thesis by simp
qed

theorem proportional_variance_formula_witness:
  "wf_frame example_scores \<and> distinct (index example_scores) \<and> index example_scores \<noteq> []
   \<and> 0 < ncols example_scores \<and> (\<exists>j<ncols example_scores. spec_var example_scores j \<noteq> 0)
   \<and> (\<exists>res. proportional_variance example_scores False = Inr res
         \<and> map_of res ''P1'' = Some (Fin (182 / 25)))
   \<and> nansum (pv_weights example_scores) = Fin 1"
proof -
  have v: "spec_var example_scores 0 \<noteq> 0"
    by (simp add: spec_var_def spec_mean_def score_def example_scores_def eval_nat_numeral power2_eq_square)
  have h: "wf_frame example_scores" "distinct (index example_scores)" "index example_scores \<noteq> []"
    "0 < ncols example_scores"
    by (simp_all add: example_scores_def wf_frame_def)
  have e: "\<exists>j<ncols example_scores. spec_var example_scores j \<noteq> 0"
    using v h(4) by blast
  from proportional_variance_formula[OF h e] obtain res where
    r: "proportional_variance example_scores False = Inr res"
      "\<forall>p<length (index example_scores). map_of res (index example_scores ! p)
          = Some (Fin (spec_pv example_scores p))"
      "nansum (pv_weights example_scores) = Fin 1"
    by blast
  have "0 < length (index example_scores)" "index example_scores ! 0 = ''P1''"
    by (simp_all add: example_scores_def)
  with r(2) have "map_of res ''P1'' = Some (Fin (spec_pv example_scores 0))" by metis
  with r(1,3) h e show ?thesis by (simp add: example_scores_pv)
qed

section \<open>Normalised results\<close>

lemma two_values_spread:
  fixes zs :: "real list"
  assumes "a \<in> set zs" and "b \<in> set zs" and "a \<noteq> b"
  shows "zs \<noteq> []" and "Min (set zs) < Max (set zs)"
proof -
  show "zs \<noteq> []" using assms(1) by auto
  have "Min (set zs) \<le> min a b" using assms(1,2) by (simp add: min_def)
  also have "min a b < max a b" using assms(3) by (simp add: min_def max_def)
  also have "max a b \<le> Max (set zs)" using assms(1,2) by (simp add: max_def)
  finally show "Min (set zs) < Max (set zs)" .
qed

lemma normalized_series:
  assumes "vals = map Fin zs" and "length vals = length idx"
    and "\<exists>a\<in>set vals. \<exists>b\<in>set vals. a \<noteq> b"
  shows "series_min (map snd (sort_values (zip idx (normalize_arr vals)))) = Fin 0"
    and "series_max (map snd (sort_values (zip idx (normalize_arr vals)))) = Fin 1"
proof -
  from assms(1,3) obtain a b where ab: "a \<in> set zs" "b \<in> set zs" "a \<noteq> b" by auto
  note sp = two_values_spread[OF ab]
  let ?ns = "map (\<lambda>x. (x - Min (set zs)) / (Max (set zs) - Min (set zs))) zs"
  have n: "normalize_arr vals = map Fin ?ns" unfolding assms(1) using sp by (rule normalize_fin)
  have "length (map Fin ?ns) = length idx" using assms(1,2) by simp
  then have m: "mset (map snd (sort_values (zip idx (map Fin ?ns)))) = mset (map Fin ?ns)"
    by (rule sorted_series(4))
  have ne: "?ns \<noteq> []" using sp(1) by simp
  show "series_min (map snd (sort_values (zip idx (normalize_arr vals)))) = Fin 0"
    unfolding n series_min_perm(1)[OF m ne] normalize_fin_range(1)[OF sp] ..
  show "series_max (map snd (sort_values (zip idx (normalize_arr vals)))) = Fin 1"
    unfolding n series_min_perm(2)[OF m ne] normalize_fin_range(2)[OF sp] ..
qed

lemma example_kappa_scores: "kappa_scores example_scores 0 = [Fin (1 / 2), Fin (- 1 / 2)]"
  by (simp add: kappa_scores_def example_scores_def mean_axis0_def std_axis0_def
      column_def col_mean_def col_std_def kappa_cell_def fsub_def upt2)

lemma example_pv_scores: "pv_scores example_scores = [Fin (182 / 25), Fin (29 / 5)]"
  by (simp add: pv_scores_def pv_weights_def example_scores_def var_axis0_def
      column_def col_var_def sq_dev_def upt2 power2_eq_square)

text \<open>
  C6. The helper \<open>_normalize\<close> maps a sequence of numbers whose maximum exceeds its minimum
  to the sequence of the \<open>(x - min) / (max - min)\<close>, of the same length, with minimum \<open>0\<close> and
  maximum \<open>1\<close>. So \<open>kappa_adjusted\<close> (for \<open>kappa \<noteq> -1\<close>) and \<open>proportional_variance\<close> with
  normalisation return values with minimum \<open>0\<close> and maximum \<open>1\<close> whenever two of the
  adjusted scores they normalise differ.
\<close>

theorem normalized_range:
  "(xs \<noteq> [] \<and> Min (set xs) < Max (set xs) \<longrightarrow>
      normalize_arr (map Fin xs)
        = map (\<lambda>x. Fin ((x - Min (set xs)) / (Max (set xs) - Min (set xs)))) xs
      \<and> length (normalize_arr (map Fin xs)) = length xs
      \<and> series_min (normalize_arr (map Fin xs)) = Fin 0
      \<and> series_max (normalize_arr (map Fin xs)) = Fin 1)
   \<and> (wf_frame t \<and> kappa \<noteq> -1
        \<and> (\<exists>a\<in>set (kappa_scores t kappa). \<exists>b\<in>set (kappa_scores t kappa). a \<noteq> b) \<longrightarrow>
      (\<exists>res. kappa_adjusted t kappa True = Inr res
         \<and> series_min (map snd res) = Fin 0 \<and> series_max (map snd res) = Fin 1))
   \<and> (wf_frame t \<and> (\<exists>a\<in>set (pv_scores t). \<exists>b\<in>set (pv_scores t). a \<noteq> b) \<longrightarrow>
      (\<exists>res. proportional_variance t True = Inr res
         \<and> series_min (map snd res) = Fin 0 \<and> series_max (map snd res) = Fin 1))"
proof (intro conjI impI)
  assume a: "xs \<noteq> [] \<and> Min (set xs) < Max (set xs)"
  then have sp: "xs \<noteq> []" "Min (set xs) < Max (set xs)" by simp_all
  let ?ns = "map (\<lambda>x. (x - Min (set xs)) / (Max (set xs) - Min (set xs))) xs"
  have n: "normalize_arr (map Fin xs) = map Fin ?ns" using sp by (rule normalize_fin)
  have ne: "?ns \<noteq> []" using sp(1) by simp
  show "normalize_arr (map Fin xs)
        = map (\<lambda>x. Fin ((x - Min (set xs)) / (Max (set xs) - Min (set xs)))) xs"
    by (simp add: n comp_def)
  show "length (normalize_arr (map Fin xs)) = length xs" by (rule length_normalize_arr[of "map Fin xs", simplified])
  show "series_min (normalize_arr (map Fin xs)) = Fin 0"
    unfolding n series_min_fin[OF ne] normalize_fin_range(1)[OF sp] ..
  show "series_max (normalize_arr (map Fin xs)) = Fin 1"
    unfolding n series_max_fin[OF ne] normalize_fin_range(2)[OF sp] ..
next
  assume a: "wf_frame t \<and> kappa \<noteq> -1
        \<and> (\<exists>a\<in>set (kappa_scores t kappa). \<exists>b\<in>set (kappa_scores t kappa). a \<noteq> b)"
  then have k: "1 + kappa \<noteq> 0" and wf: "wf_frame t" by simp_all
  have v: "kappa_scores t kappa = map Fin (map (spec_kappa t kappa) [0..<length (index t)])"
    by (simp add: kappa_scores_spec[OF wf k] comp_def)
  have l: "length (kappa_scores t kappa) = length (index t)" by (simp add: v)
  from a have d: "\<exists>a\<in>set (kappa_scores t kappa). \<exists>b\<in>set (kappa_scores t kappa). a \<noteq> b" by simp
  have "kappa_adjusted t kappa True
          = Inr (sort_values (zip (index t) (normalize_arr (kappa_scores t kappa))))"
    using k by (simp add: kappa_adjusted_def)
  with normalized_series[OF v l d]
  show "\<exists>res. kappa_adjusted t kappa True = Inr res
         \<and> series_min (map snd res) = Fin 0 \<and> series_max (map snd res) = Fin 1" by simp
next
  assume a: "wf_frame t \<and> (\<exists>a\<in>set (pv_scores t). \<exists>b\<in>set (pv_scores t). a \<noteq> b)"
  then have wf: "wf_frame t" by simp
  have v: "pv_scores t = map Fin (map (spec_pv t) [0..<length (index t)])"
    by (simp add: pv_scores_spec[OF wf] comp_def)
  have l: "length (pv_scores t) = length (index t)" by (simp add: v)
  from a have d: "\<exists>a\<in>set (pv_scores t). \<exists>b\<in>set (pv_scores t). a \<noteq> b" by simp
  have "proportional_variance t True = Inr (sort_values (zip (index t) (normalize_arr (pv_scores t))))"
    by (simp add: proportional_variance_def)
  with normalized_series[OF v l d]
  show "\<exists>res. proportional_variance t True = Inr res
         \<and> series_min (map snd res) = Fin 0 \<and> series_max (map snd res) = Fin 1" by simp
qed


theorem normalized_range_witness:
  "([1, 3, 2 :: real] \<noteq> [] \<and> Min (set [1, 3, 2 :: real]) < Max (set [1, 3, 2 :: real]))
   \<and> normalize_arr (map Fin [1, 3, 2]) = [Fin 0, Fin 1, Fin (1 / 2)]
   \<and> series_min (normalize_arr (map Fin [1, 3, 2])) = Fin 0
   \<and> series_max (normalize_arr (map Fin [1, 3, 2])) = Fin 1
   \<and> (wf_frame example_scores \<and> (0 :: real) \<noteq> -1
        \<and> (\<exists>a\<in>set (kappa_scores example_scores 0). \<exists>b\<in>set (kappa_scores example_scores 0). a \<noteq> b))
   \<and> (\<exists>res. kappa_adjusted example_scores 0 True = Inr res
         \<and> series_min (map snd res) = Fin 0 \<and> series_max (map snd res) = Fin 1)
   \<and> (wf_frame example_scores
        \<and> (\<exists>a\<in>set (pv_scores example_scores). \<exists>b\<in>set (pv_scores example_scores). a \<noteq> b))
   \<and> (\<exists>res. proportional_variance example_scores True = Inr res
         \<and> series_min (map snd res) = Fin 0 \<and> series_max (map snd res) = Fin 1)"
proof -
  have h1: "[1, 3, 2 :: real] \<noteq> [] \<and> Min (set [1, 3, 2 :: real]) < Max (set [1, 3, 2 :: real])"
    by simp
  have h2: "wf_frame example_scores \<and> (0 :: real) \<noteq> -1
        \<and> (\<exists>a\<in>set (kappa_scores example_scores 0). \<exists>b\<in>set (kappa_scores example_scores 0). a \<noteq> b)"
    by (auto simp: example_wf example_kappa_scores)
  have h3: "wf_frame example_scores
        \<and> (\<exists>a\<in>set (pv_scores example_scores). \<exists>b\<in>set (pv_scores example_scores). a \<noteq> b)"
    by (auto simp: example_wf example_pv_scores)
  note t = normalized_range[of "[1, 3, 2]" example_scores 0]
  from t h1 have "normalize_arr (map Fin [1, 3, 2])
        = map (\<lambda>x. Fin ((x - Min (set [1, 3, 2])) / (Max (set [1, 3, 2]) - Min (set [1, 3, 2])))) [1, 3, 2]"
    and c1: "series_min (normalize_arr (map Fin [1, 3, 2])) = Fin 0"
      "series_max (normalize_arr (map Fin [1, 3, 2])) = Fin 1"
    by blast+
  then have c0: "normalize_arr (map Fin [1, 3, 2]) = [Fin 0, Fin 1, Fin (1 / 2)]" by simp
  from t h2 have c2: "\<exists>res. kappa_adjusted example_scores 0 True = Inr res
         \<and> series_min (map snd res) = Fin 0 \<and> series_max (map snd res) = Fin 1" by blast
  from t h3 have c3: "\<exists>res. proportional_variance example_scores True = Inr res
         \<and> series_min (map snd res) = Fin 0 \<and> series_max (map snd res) = Fin 1" by blast
  from h1 c0 c1 h2 c2 h3 c3 show ?thesis by blast
qed

section \<open>Normalising equal scores\<close>

lemma normalized_constant_series:
  assumes "\<forall>a\<in>set vals. \<forall>b\<in>set vals. a = b" and "length vals = length idx"
  shows "length (sort_values (zip idx (normalize_arr vals))) = length idx"
    and "\<forall>e\<in>set (sort_values (zip idx (normalize_arr vals))). snd e = NaN"
proof -
  show "length (sort_values (zip idx (normalize_arr vals))) = length idx"
    by (simp add: length_sort_values length_normalize_arr assms(2))
  have n: "normalize_arr vals = replicate (length vals) NaN"
  proof (cases vals)
    case Nil
    then show ?thesis by (simp add: normalize_arr_def)
  next
    case (Cons c cs)
    then have "vals \<noteq> []" "\<forall>x\<in>set vals. x = c" using assms(1) by auto
    then show ?thesis by (rule normalize_const)
  qed
  show "\<forall>e\<in>set (sort_values (zip idx (normalize_arr vals))). snd e = NaN"
    unfolding n set_sort_values by (auto dest: set_zip_rightD)
qed

lemma example_equal_kappa: "kappa_scores example_equal 0 = [Fin 0, Fin 0]"
  by (simp add: kappa_scores_def example_equal_def mean_axis0_def std_axis0_def
      column_def col_mean_def col_std_def kappa_cell_def fsub_def upt2)

lemma example_equal_pv: "pv_scores example_equal = [Fin 7, Fin 7]"
  by (simp add: pv_scores_def pv_weights_def example_equal_def var_axis0_def
      column_def col_var_def sq_dev_def upt2 power2_eq_square)

lemma example_equal_results:
  "kappa_adjusted example_equal 0 True = Inr [(''P1'', NaN), (''P2'', NaN)]"
  "proportional_variance example_equal True = Inr [(''P1'', NaN), (''P2'', NaN)]"
  by (simp_all add: kappa_adjusted_def proportional_variance_def example_equal_kappa example_equal_pv
      normalize_arr_def series_min_def series_max_def fmin2_def fmax2_def fsub_def inf_of_sign_def
      desc_def, simp_all add: example_equal_def desc_def)

text \<open>
  C10. On a constant sequence that is not empty, \<open>_normalize\<close> raises nothing and returns a
  sequence of the same length whose every element is NaN (\<open>0/0\<close>). So \<open>kappa_adjusted\<close>
  (for \<open>kappa \<noteq> -1\<close>) and \<open>proportional_variance\<close> with normalisation, on a table all of
  whose adjusted scores are equal, return one entry per project, every value NaN.
\<close>

theorem normalize_constant_nan:
  "(xs \<noteq> [] \<and> (\<forall>x\<in>set xs. x = c) \<longrightarrow> normalize_arr xs = replicate (length xs) NaN)
   \<and> (wf_frame t \<and> kappa \<noteq> -1
        \<and> (\<forall>a\<in>set (kappa_scores t kappa). \<forall>b\<in>set (kappa_scores t kappa). a = b) \<longrightarrow>
      (\<exists>res. kappa_adjusted t kappa True = Inr res \<and> length res = length (index t)
         \<and> (\<forall>e\<in>set res. snd e = NaN)))
   \<and> (wf_frame t \<and> (\<forall>a\<in>set (pv_scores t). \<forall>b\<in>set (pv_scores t). a = b) \<longrightarrow>
      (\<exists>res. proportional_variance t True = Inr res \<and> length res = length (index t)
         \<and> (\<forall>e\<in>set res. snd e = NaN)))"
proof (intro conjI impI)
  assume "xs \<noteq> [] \<and> (\<forall>x\<in>set xs. x = c)"
  then have "xs \<noteq> []" "\<forall>x\<in>set xs. x = c" by simp_all
  then show "normalize_arr xs = replicate (length xs) NaN" by (rule normalize_const)
next
  assume a: "wf_frame t \<and> kappa \<noteq> -1
        \<and> (\<forall>a\<in>set (kappa_scores t kappa). \<forall>b\<in>set (kappa_scores t kappa). a = b)"
  then have k: "1 + kappa \<noteq> 0" by simp
  from a have l: "length (kappa_scores t kappa) = length (index t)"
    by (simp add: length_kappa_scores wf_frame_def)
  from a have c: "\<forall>a\<in>set (kappa_scores t kappa). \<forall>b\<in>set (kappa_scores t kappa). a = b" by simp
  have "kappa_adjusted t kappa True
          = Inr (sort_values (zip (index t) (normalize_arr (kappa_scores t kappa))))"
    using k by (simp add: kappa_adjusted_def)
  with normalized_constant_series[OF c l]
  show "\<exists>res. kappa_adjusted t kappa True = Inr res \<and> length res = length (index t)
         \<and> (\<forall>e\<in>set res. snd e = NaN)" by simp
next
  assume a: "wf_frame t \<and> (\<forall>a\<in>set (pv_scores t). \<forall>b\<in>set (pv_scores t). a = b)"
  then have l: "length (pv_scores t) = length (index t)"
    by (simp add: length_pv_scores wf_frame_def)
  from a have c: "\<forall>a\<in>set (pv_scores t). \<forall>b\<in>set (pv_scores t). a = b" by simp
  have "proportional_variance t True = Inr (sort_values (zip (index t) (normalize_arr (pv_scores t))))"
    by (simp add: proportional_variance_def)
  with normalized_constant_series[OF c l]
  show "\<exists>res. proportional_variance t True = Inr res \<and> length res = length (index t)
         \<and> (\<forall>e\<in>set res. snd e = NaN)" by simp
qed

theorem normalize_constant_nan_witness:
  "[Fin 5, Fin 5, Fin 5] \<noteq> [] \<and> list_all (\<lambda>x. x = Fin 5) [Fin 5, Fin 5, Fin 5]
   \<and> normalize_arr [Fin 5, Fin 5, Fin 5] = [NaN, NaN, NaN]
   \<and> wf_frame example_equal \<and> (0 :: real) \<noteq> -1
   \<and> kappa_scores example_equal 0 = [Fin 0, Fin 0]
   \<and> (\<exists>res. kappa_adjusted example_equal 0 True = Inr res \<and> length res = length (index example_equal)
         \<and> (\<forall>e\<in>set res. snd e = NaN))
   \<and> pv_scores example_equal = [Fin 7, Fin 7]
   \<and> (\<exists>res. proportional_variance example_equal True = Inr res \<and> length res = length (index example_equal)
         \<and> (\<forall>e\<in>set res. snd e = NaN))"
proof -
  have wf: "wf_frame example_equal" by (simp add: wf_frame_def example_equal_def)
  have h1: "[Fin 5, Fin 5, Fin 5] \<noteq> [] \<and> (\<forall>x\<in>set [Fin 5, Fin 5, Fin 5]. x = Fin 5)" by simp
  have h2: "wf_frame example_equal \<and> (0 :: real) \<noteq> -1
        \<and> (\<forall>a\<in>set (kappa_scores example_equal 0). \<forall>b\<in>set (kappa_scores example_equal 0). a = b)"
    by (simp add: wf example_equal_kappa)
  have h3: "wf_frame example_equal
        \<and> (\<forall>a\<in>set (pv_scores example_equal). \<forall>b\<in>set (pv_scores example_equal). a = b)"
    by (simp add: wf example_equal_pv)
  note t = normalize_constant_nan[of "[Fin 5, Fin 5, Fin 5]" "Fin 5" example_equal 0]
  from t h1 have "normalize_arr [Fin 5, Fin 5, Fin 5] = replicate (length [Fin 5, Fin 5, Fin 5]) NaN"
    by blast
  then have c1: "normalize_arr [Fin 5, Fin 5, Fin 5] = [NaN, NaN, NaN]"
    by (simp add: eval_nat_numeral)
  from t h2 have c2: "\<exists>res. kappa_adjusted example_equal 0 True = Inr res
         \<and> length res = length (index example_equal) \<and> (\<forall>e\<in>set res. snd e = NaN)" by blast
  from t h3 have c3: "\<exists>res. proportional_variance example_equal True = Inr res
         \<and> length res = length (index example_equal) \<and> (\<forall>e\<in>set res. snd e = NaN)" by blast
  from c1 c2 c3 wf show ?thesis by (simp add: example_equal_kappa example_equal_pv)
qed

section \<open>Tables without projects or without judges\<close>

lemma constant_series:
  assumes "\<forall>v\<in>set vals. v = Fin 0" and "length vals = length idx"
  shows "mset (map fst (sort_values (zip idx (if nrm then normalize_arr vals else vals)))) = mset idx"
    and "\<forall>e\<in>set (sort_values (zip idx (if nrm then normalize_arr vals else vals))).
           snd e = (if nrm then NaN else Fin 0)"
proof -
  have "length (if nrm then normalize_arr vals else vals) = length idx"
    by (simp add: length_normalize_arr assms(2))
  then show "mset (map fst (sort_values (zip idx (if nrm then normalize_arr vals else vals)))) = mset idx"
    by (rule sorted_series(1))
  show "\<forall>e\<in>set (sort_values (zip idx (if nrm then normalize_arr vals else vals))).
           snd e = (if nrm then NaN else Fin 0)"
  proof (cases nrm)
    case True
    have "\<forall>a\<in>set vals. \<forall>b\<in>set vals. a = b" using assms(1) by metis
    from normalized_constant_series(2)[OF this assms(2)] True show ?thesis by simp
  next
    case False
    then show ?thesis using assms(1) by (auto simp: set_sort_values dest: set_zip_rightD)
  qed
qed

lemma degenerate_sums:
  assumes "index t = [] \<or> ncols t = 0"
  shows "\<forall>v\<in>set (map (\<lambda>p. Fin (spec_kappa t kappa p)) [0..<length (index t)]). v = Fin 0"
    and "\<forall>v\<in>set (map (\<lambda>p. Fin (spec_pv t p)) [0..<length (index t)]). v = Fin 0"
  using assms by (auto simp: spec_kappa_def spec_pv_def)

text \<open>
  C9. The claim: on a table with no judge or no project both functions fail fast with a
  descriptive error. The module validates nothing, and on a table with no judge, or on a
  \<open>float64\<close> table with no project, every operation it uses is defined: with no project
  the result is the empty Series, with no judge every row sum is the empty sum \<open>0.0\<close>,
  which normalisation turns into NaN. No error is raised on these tables.
\<close>

theorem degenerate_shape_counterexample:
  "kappa_adjusted no_projects 1 True = Inr []
   \<and> proportional_variance no_projects True = Inr []
   \<and> kappa_adjusted no_judges 1 False = Inr [(''P1'', Fin 0), (''P2'', Fin 0)]
   \<and> proportional_variance no_judges True = Inr [(''P1'', NaN), (''P2'', NaN)]"
  by (simp add: kappa_adjusted_def proportional_variance_def kappa_scores_def pv_scores_def
      no_projects_def no_judges_def normalize_arr_def series_min_def series_max_def fmin2_def fmax2_def
      fsub_def inf_of_sign_def desc_def)

text \<open>
  C9, as the code has it: on a table with no judge, and on a \<open>float64\<close> table with no
  project (the tables a \<open>frame\<close> with \<open>ncols t = 0\<close> or \<open>index t = []\<close> stands for),
  \<open>kappa_adjusted\<close> (for \<open>kappa \<noteq> -1\<close>) and \<open>proportional_variance\<close> raise no error and
  return one entry per project of the table (none when it has no project), every value
  \<open>0.0\<close> without normalisation and NaN with it. Nothing is said of a table of Python
  objects with no project.
\<close>

theorem degenerate_shape_result:
  assumes "wf_frame t" and "index t = [] \<or> ncols t = 0"
  shows "(kappa \<noteq> -1 \<longrightarrow>
           (\<exists>res. kappa_adjusted t kappa nrm = Inr res \<and> mset (map fst res) = mset (index t)
              \<and> (\<forall>e\<in>set res. snd e = (if nrm then NaN else Fin 0))))
       \<and> (\<exists>res. proportional_variance t nrm = Inr res \<and> mset (map fst res) = mset (index t)
              \<and> (\<forall>e\<in>set res. snd e = (if nrm then NaN else Fin 0)))"
proof (intro conjI impI)
  assume "kappa \<noteq> -1"
  then have k: "1 + kappa \<noteq> 0" by simp
  note v = kappa_scores_spec[OF assms(1) k]
  have l: "length (kappa_scores t kappa) = length (index t)" by (simp add: v)
  have z: "\<forall>v\<in>set (kappa_scores t kappa). v = Fin 0"
    unfolding v by (rule degenerate_sums(1)[OF assms(2)])
  have "kappa_adjusted t kappa nrm = Inr (sort_values (zip (index t)
          (if nrm then normalize_arr (kappa_scores t kappa) else kappa_scores t kappa)))"
    using k by (simp add: kappa_adjusted_def)
  with constant_series[OF z l, of nrm]
  show "\<exists>res. kappa_adjusted t kappa nrm = Inr res \<and> mset (map fst res) = mset (index t)
              \<and> (\<forall>e\<in>set res. snd e = (if nrm then NaN else Fin 0))" by simp
next
  note v = pv_scores_spec[OF assms(1)]
  have l: "length (pv_scores t) = length (index t)" by (simp add: v)
  have z: "\<forall>v\<in>set (pv_scores t). v = Fin 0"
    unfolding v by (rule degenerate_sums(2)[OF assms(2)])
  have "proportional_variance t nrm = Inr (sort_values (zip (index t)
          (if nrm then normalize_arr (pv_scores t) else pv_scores t)))"
    by (simp add: proportional_variance_def)
  with constant_series[OF z l, of nrm]
  show "\<exists>res. proportional_variance t nrm = Inr res \<and> mset (map fst res) = mset (index t)
              \<and> (\<forall>e\<in>set res. snd e = (if nrm then NaN else Fin 0))" by simp
qed

theorem degenerate_shape_result_witness:
  "wf_frame no_judges \<and> (index no_judges = [] \<or> ncols no_judges = 0) \<and> (1 :: real) \<noteq> -1
   \<and> (\<exists>res. kappa_adjusted no_judges 1 True = Inr res \<and> mset (map fst res) = mset (index no_judges)
          \<and> (\<forall>e\<in>set res. snd e = NaN))
   \<and> (\<exists>res. proportional_variance no_judges True = Inr res \<and> mset (map fst res) = mset (index no_judges)
          \<and> (\<forall>e\<in>set res. snd e = NaN))"
proof -
  have h: "wf_frame no_judges" "index no_judges = [] \<or> ncols no_judges = 0"
    by (simp_all add: wf_frame_def no_judges_def)
  from degenerate_shape_result[OF h, of 1 True] h show ?thesis by simp
qed

end
